theory Spec2Isabelle
  imports Complex_Main
begin

section \<open>Scope of the model\<close>

text \<open>
  The development embeds \<^verbatim>\<open>train.py\<close>: the noise schedule
  (\<^verbatim>\<open>ddpm_schedules\<close>), the residual block, the shapes of the U-Net, and
  the diffusion wrapper (\<^verbatim>\<open>DDPM.forward\<close>, \<^verbatim>\<open>DDPM.sample\<close>).

  Numbers are real numbers: \<^verbatim>\<open>float32\<close> rounding, NaN and infinities are
  not represented, so every statement about a value is a statement about the exact
  arithmetic the script approximates. Random draws (\<^verbatim>\<open>torch.randint\<close>,
  \<^verbatim>\<open>torch.randn\<close>) are arguments of the modelled functions. Exceptions are
  values of type \<open>error\<close>.
\<close>

datatype error = AssertionError | RuntimeError | IndexError | ValueError

section \<open>The noise schedule\<close>

text \<open>The dictionary returned by \<^verbatim>\<open>ddpm_schedules\<close>: seven one-dimensional tensors.\<close>

record schedule =
  alpha_t :: "real list"
  oneover_sqrta :: "real list"
  sqrt_beta_t :: "real list"
  alphabar_t :: "real list"
  sqrtab :: "real list"
  sqrtmab :: "real list"
  mab_over_sqrtmab :: "real list"

text \<open>\<^verbatim>\<open>torch.arange(lo, hi)\<close> for integer bounds: \<open>lo, lo + 1, ..., hi - 1\<close>, empty when \<open>hi \<le> lo\<close>.\<close>

definition arange :: "int \<Rightarrow> int \<Rightarrow> real list" where
  "arange lo hi = map real_of_int [lo..hi - 1]"

text \<open>\<^verbatim>\<open>torch.cumsum(xs, dim=0)\<close>: running sums, the entry at \<open>i\<close> includes \<open>xs[i]\<close>.\<close>

fun cumsum_from :: "real \<Rightarrow> real list \<Rightarrow> real list" where
  "cumsum_from acc [] = []"
| "cumsum_from acc (x # xs) = (acc + x) # cumsum_from (acc + x) xs"

definition cumsum :: "real list \<Rightarrow> real list" where
  "cumsum xs = cumsum_from 0 xs"

text \<open>
  Line 172:
  \<^verbatim>\<open>beta_t = (beta2 - beta1) * torch.arange(0, T + 1, dtype=torch.float32) / T + beta1\<close>.
  In the script the quotient by \<open>T = 0\<close> is NaN; the model is meant for \<open>T \<noteq> 0\<close>.
\<close>

definition beta_t :: "real \<Rightarrow> real \<Rightarrow> int \<Rightarrow> real list" where
  "beta_t beta1 beta2 T =
     map (\<lambda>k. (beta2 - beta1) * k / real_of_int T + beta1) (arange 0 (T + 1))"

text \<open>
  Lines 170 to 192. The assertion \<^verbatim>\<open>beta1 < beta2 < 1.0\<close> is the chained
  comparison \<open>beta1 < beta2 \<and> beta2 < 1\<close>; its failure is \<open>Inl AssertionError\<close>.
\<close>

definition ddpm_schedules :: "real \<Rightarrow> real \<Rightarrow> int \<Rightarrow> error + schedule" where
  "ddpm_schedules beta1 beta2 T =
     (if \<not> (beta1 < beta2 \<and> beta2 < 1) then Inl AssertionError
      else
        let b = beta_t beta1 beta2 T;
            sqrt_b = map sqrt b;
            a = map (\<lambda>x. 1 - x) b;
            log_a = map ln a;
            ab = map exp (cumsum log_a);
            sab = map sqrt ab;
            oosa = map (\<lambda>x. 1 / sqrt x) a;
            smab = map (\<lambda>x. sqrt (1 - x)) ab;
            mab_over_sqrtmab_inv = map2 (\<lambda>x y. (1 - x) / y) a smab
        in Inr \<lparr> alpha_t = a,
                 oneover_sqrta = oosa,
                 sqrt_beta_t = sqrt_b,
                 alphabar_t = ab,
                 sqrtab = sab,
                 sqrtmab = smab,
                 mab_over_sqrtmab = mab_over_sqrtmab_inv \<rparr>)"

subsection \<open>The schedule in the specification's words\<close>

text \<open>
  Section 4.1 of the specification: \<open>\<beta>\<^sub>t\<close> linear from \<open>\<beta>\<^sub>1\<close> to \<open>\<beta>\<^sub>2\<close>,
  \<open>\<alpha>\<^sub>t = 1 - \<beta>\<^sub>t\<close>, and \<open>\<alpha>bar\<^sub>t\<close> the cumulative product of the \<open>\<alpha>\<close>.
  These closed forms are what the tensors of \<open>ddpm_schedules\<close> are compared with;
  the product starts at index \<open>0\<close>, as the cumulative sum of the code does.
\<close>

definition spec_beta :: "real \<Rightarrow> real \<Rightarrow> int \<Rightarrow> nat \<Rightarrow> real" where
  "spec_beta b1 b2 T k = b1 + (b2 - b1) * real k / real_of_int T"

definition spec_alpha :: "real \<Rightarrow> real \<Rightarrow> int \<Rightarrow> nat \<Rightarrow> real" where
  "spec_alpha b1 b2 T k = 1 - spec_beta b1 b2 T k"

definition spec_alphabar :: "real \<Rightarrow> real \<Rightarrow> int \<Rightarrow> nat \<Rightarrow> real" where
  "spec_alphabar b1 b2 T i = (\<Prod>k\<le>i. spec_alpha b1 b2 T k)"

section \<open>Tensors\<close>

text \<open>
  A tensor is its shape and its entries in row-major order, as \<^verbatim>\<open>torch\<close> lays a
  contiguous tensor out. A zero-dimensional tensor has shape \<open>[]\<close> and one entry; a
  Python number in a tensor expression is such a tensor.
\<close>

record tensor =
  shape :: "nat list"
  data :: "real list"

definition wf_tensor :: "tensor \<Rightarrow> bool" where
  "wf_tensor x = (length (data x) = prod_list (shape x))"

definition scalar :: "real \<Rightarrow> tensor" where
  "scalar c = \<lparr> shape = [], data = [c] \<rparr>"

text \<open>\<^verbatim>\<open>torch.randn(*shp)\<close>, the drawn entries given.\<close>

definition randn :: "nat list \<Rightarrow> real list \<Rightarrow> tensor" where
  "randn shp draws = \<lparr> shape = shp, data = draws \<rparr>"

text \<open>Sequencing of computations that may raise.\<close>

definition bind_err :: "error + 'a \<Rightarrow> ('a \<Rightarrow> error + 'b) \<Rightarrow> error + 'b" where
  "bind_err m f = (case m of Inl e \<Rightarrow> Inl e | Inr v \<Rightarrow> f v)"

text \<open>The first \<open>a\<close> consecutive blocks of \<open>m\<close> entries: the rows along the leading dimension.\<close>

fun chunks :: "nat \<Rightarrow> nat \<Rightarrow> 'a list \<Rightarrow> 'a list list" where
  "chunks 0 m d = []"
| "chunks (Suc a) m d = take m d # chunks a m (drop m d)"

text \<open>
  Broadcasting: shapes are aligned at their last dimension; two sizes are compatible
  when they are equal or one of them is \<open>1\<close>. \<open>broadcast_rev\<close> works on reversed shapes.
\<close>

fun broadcast_rev :: "nat list \<Rightarrow> nat list \<Rightarrow> nat list option" where
  "broadcast_rev [] ys = Some ys"
| "broadcast_rev (x # xs) [] = Some (x # xs)"
| "broadcast_rev (x # xs) (y # ys) =
     (if x = y \<or> y = 1 then map_option ((#) x) (broadcast_rev xs ys)
      else if x = 1 then map_option ((#) y) (broadcast_rev xs ys)
      else None)"

definition broadcast_shapes :: "nat list \<Rightarrow> nat list \<Rightarrow> nat list option" where
  "broadcast_shapes s t = map_option rev (broadcast_rev (rev s) (rev t))"

definition pad_shape :: "nat \<Rightarrow> nat list \<Rightarrow> nat list" where
  "pad_shape r s = replicate (r - length s) 1 @ s"

text \<open>
  The entries of a tensor of shape \<open>s\<close> expanded to the shape \<open>t\<close> of the same rank: a
  dimension of size \<open>1\<close> is repeated.
\<close>

fun expand :: "nat list \<Rightarrow> nat list \<Rightarrow> real list \<Rightarrow> real list" where
  "expand (a # s) (b # t) d =
     (let rows = concat (map (expand s t) (chunks a (prod_list s) d))
      in if a = b then rows else concat (replicate b rows))"
| "expand [] t d = d"
| "expand (a # s) [] d = d"

text \<open>An elementwise binary operation with broadcasting; incompatible shapes raise.\<close>

definition tensor_binop :: "(real \<Rightarrow> real \<Rightarrow> real) \<Rightarrow> tensor \<Rightarrow> tensor \<Rightarrow> error + tensor" where
  "tensor_binop f x y =
     (case broadcast_shapes (shape x) (shape y) of
        None \<Rightarrow> Inl RuntimeError
      | Some s \<Rightarrow>
          Inr \<lparr> shape = s,
                data = map2 f (expand (pad_shape (length s) (shape x)) s (data x))
                              (expand (pad_shape (length s) (shape y)) s (data y)) \<rparr>)"

text \<open>
  \<^verbatim>\<open>x.repeat(*reps)\<close>: fewer repeat counts than dimensions raise; with more, the shape
  is first padded with leading ones.
\<close>

fun tile :: "nat list \<Rightarrow> nat list \<Rightarrow> real list \<Rightarrow> real list" where
  "tile (a # s) (r # rs) d =
     concat (replicate r (concat (map (tile s rs) (chunks a (prod_list s) d))))"
| "tile [] rs d = d"
| "tile (a # s) [] d = d"

definition tensor_repeat :: "tensor \<Rightarrow> nat list \<Rightarrow> error + tensor" where
  "tensor_repeat x reps =
     (if length reps < length (shape x) then Inl RuntimeError
      else
        let s = pad_shape (length reps) (shape x)
        in Inr \<lparr> shape = map2 (*) reps s, data = tile s reps (data x) \<rparr>)"

text \<open>\<^verbatim>\<open>x[:n]\<close> for \<open>n \<ge> 0\<close>: the first \<open>n\<close> rows; a zero-dimensional tensor cannot be sliced.\<close>

definition slice_to :: "tensor \<Rightarrow> nat \<Rightarrow> error + tensor" where
  "slice_to x n =
     (case shape x of
        [] \<Rightarrow> Inl IndexError
      | a # s \<Rightarrow> Inr \<lparr> shape = min n a # s, data = take (min n a * prod_list s) (data x) \<rparr>)"

text \<open>
  \<^verbatim>\<open>buf[i]\<close> on a one-dimensional buffer: a negative index counts from the end, an
  index out of range raises.
\<close>

definition index1 :: "real list \<Rightarrow> int \<Rightarrow> error + real" where
  "index1 buf i =
     (if - int (length buf) \<le> i \<and> i < 0 then Inr (buf ! nat (int (length buf) + i))
      else if 0 \<le> i \<and> i < int (length buf) then Inr (buf ! nat i)
      else Inl IndexError)"

text \<open>\<^verbatim>\<open>buf[ts]\<close> for an integer tensor \<open>ts\<close>: every entry is looked up.\<close>

fun index_all :: "real list \<Rightarrow> int list \<Rightarrow> error + real list" where
  "index_all buf [] = Inr []"
| "index_all buf (t # ts) =
     (case index1 buf t of
        Inl e \<Rightarrow> Inl e
      | Inr v \<Rightarrow> (case index_all buf ts of Inl e \<Rightarrow> Inl e | Inr vs \<Rightarrow> Inr (v # vs)))"

text \<open>
  \<^verbatim>\<open>nn.MSELoss()(input, target)\<close>: the mean of the squared differences of the
  broadcast arguments.
\<close>

definition loss_mse :: "tensor \<Rightarrow> tensor \<Rightarrow> error + real" where
  "loss_mse inp target =
     bind_err (tensor_binop (\<lambda>a b. (a - b)\<^sup>2) inp target)
       (\<lambda>d. Inr (sum_list (data d) / real (length (data d))))"

section \<open>The residual block\<close>

text \<open>
  \<^verbatim>\<open>ResidualConvBlock\<close>, lines 24 to 59. The two sub-stacks
  (\<^verbatim>\<open>Conv2d\<close>, \<^verbatim>\<open>BatchNorm2d\<close>, \<^verbatim>\<open>GELU\<close>, with learned weights) are
  fields of the block, functions on tensors that may raise.
\<close>

record ResidualConvBlock =
  same_channels :: bool
  is_res :: bool
  conv1 :: "tensor \<Rightarrow> error + tensor"
  conv2 :: "tensor \<Rightarrow> error + tensor"

definition ResidualConvBlock_init ::
  "nat \<Rightarrow> nat \<Rightarrow> bool \<Rightarrow> (tensor \<Rightarrow> error + tensor) \<Rightarrow> (tensor \<Rightarrow> error + tensor)
     \<Rightarrow> ResidualConvBlock" where
  "ResidualConvBlock_init in_channels out_channels res c1 c2 =
     \<lparr> same_channels = (in_channels = out_channels), is_res = res, conv1 = c1, conv2 = c2 \<rparr>"

definition ResidualConvBlock_forward :: "ResidualConvBlock \<Rightarrow> tensor \<Rightarrow> error + tensor" where
  "ResidualConvBlock_forward self x =
     (if is_res self then
        bind_err (conv1 self x) (\<lambda>x1.
        bind_err (conv2 self x1) (\<lambda>x2.
        bind_err (if same_channels self then tensor_binop (+) x x2
                  else tensor_binop (+) x1 x2) (\<lambda>out.
        tensor_binop (/) out (scalar (1414 / 1000)))))
      else
        bind_err (conv1 self x) (\<lambda>x1.
        bind_err (conv2 self x1) (\<lambda>x2.
        Inr x2)))"

text \<open>
  The residual output in the specification's words (section 8): the sum of the input
  and of the second stack's output, divided by \<open>\<surd>2\<close>.
\<close>

definition spec_residual :: "tensor \<Rightarrow> tensor \<Rightarrow> tensor" where
  "spec_residual x x2 =
     \<lparr> shape = shape x, data = map2 (\<lambda>a b. (a + b) / sqrt 2) (data x) (data x2) \<rparr>"

section \<open>The diffusion wrapper\<close>

text \<open>
  \<^verbatim>\<open>DDPM\<close>, lines 195 to 253. The buffers registered in \<^verbatim>\<open>__init__\<close> are the
  schedule; the network is a function of the image batch and the timestep tensor.
\<close>

record DDPM =
  nn_model :: "tensor \<Rightarrow> tensor \<Rightarrow> error + tensor"
  buffers :: schedule
  n_T :: int
  device :: string
  drop_prob :: real

definition DDPM_init ::
  "(tensor \<Rightarrow> tensor \<Rightarrow> error + tensor) \<Rightarrow> real \<times> real \<Rightarrow> int \<Rightarrow> string \<Rightarrow> real
     \<Rightarrow> error + DDPM" where
  "DDPM_init net betas T dev p =
     bind_err (ddpm_schedules (fst betas) (snd betas) T) (\<lambda>s.
     Inr \<lparr> nn_model = net, buffers = s, n_T = T, device = dev, drop_prob = p \<rparr>)"

text \<open>
  What \<^verbatim>\<open>torch.randint(low, high, (n,))\<close> can return: \<open>n\<close> integers in
  \<open>[low, high)\<close>.
\<close>

definition randint_draw :: "int \<Rightarrow> int \<Rightarrow> nat \<Rightarrow> int list \<Rightarrow> bool" where
  "randint_draw low high n ts = (length ts = n \<and> list_all (\<lambda>t. low \<le> t \<and> t < high) ts)"

text \<open>
  \<^verbatim>\<open>DDPM.forward\<close>, lines 210 to 224; \<open>ts\<close> and \<open>noise\<close> are the draws of lines 214
  and 215. \<^verbatim>\<open>x.shape[0]\<close> raises on a zero-dimensional \<open>x\<close>, and
  \<^verbatim>\<open>torch.randint(1, n_T + 1, ...)\<close> raises when \<open>n_T < 1\<close>.
  \<^verbatim>\<open>buf[_ts, None, None, None]\<close> has shape \<open>(len(_ts), 1, 1, 1)\<close>.
\<close>

definition DDPM_forward :: "DDPM \<Rightarrow> tensor \<Rightarrow> int list \<Rightarrow> tensor \<Rightarrow> error + real" where
  "DDPM_forward self x ts noise =
     (if shape x = [] then Inl IndexError
      else if n_T self + 1 \<le> 1 then Inl RuntimeError
      else
        bind_err (index_all (sqrtab (buffers self)) ts) (\<lambda>c1.
        bind_err (tensor_binop (*) \<lparr> shape = [length ts, 1, 1, 1], data = c1 \<rparr> x) (\<lambda>l.
        bind_err (index_all (sqrtmab (buffers self)) ts) (\<lambda>c2.
        bind_err (tensor_binop (*) \<lparr> shape = [length ts, 1, 1, 1], data = c2 \<rparr> noise) (\<lambda>r.
        bind_err (tensor_binop (+) l r) (\<lambda>x_t.
        bind_err (nn_model self x_t
                    \<lparr> shape = [length ts],
                      data = map (\<lambda>t. real_of_int t / real_of_int (n_T self)) ts \<rparr>) (\<lambda>pred.
        loss_mse noise pred)))))))"

text \<open>
  The body of the loop of \<^verbatim>\<open>DDPM.sample\<close>, lines 232 to 248, at timestep \<open>i\<close>;
  \<open>zs i\<close> are the entries drawn for \<open>z\<close> at that step. It returns the new \<open>x_i\<close>.
\<close>

definition sample_step ::
  "DDPM \<Rightarrow> nat \<Rightarrow> nat list \<Rightarrow> (int \<Rightarrow> real list) \<Rightarrow> int \<Rightarrow> tensor \<Rightarrow> error + tensor" where
  "sample_step self n_sample size' zs i x_i =
     bind_err (tensor_repeat
                 \<lparr> shape = [1], data = [real_of_int i / real_of_int (n_T self)] \<rparr>
                 [n_sample, 1, 1, 1]) (\<lambda>t_is.
     bind_err (tensor_repeat x_i [2, 1, 1, 1]) (\<lambda>x_d.
     bind_err (tensor_repeat t_is [2, 1, 1, 1]) (\<lambda>t_d.
     let z = (if i > 1 then randn (n_sample # size') (zs i) else scalar 0) in
     bind_err (nn_model self x_d t_d) (\<lambda>out.
     bind_err (slice_to out n_sample) (\<lambda>eps.
     bind_err (slice_to x_d n_sample) (\<lambda>x_h.
     bind_err (index1 (oneover_sqrta (buffers self)) i) (\<lambda>c_x.
     bind_err (index1 (mab_over_sqrtmab (buffers self)) i) (\<lambda>c_e.
     bind_err (tensor_binop (*) eps (scalar c_e)) (\<lambda>e.
     bind_err (tensor_binop (-) x_h e) (\<lambda>d.
     bind_err (tensor_binop (*) (scalar c_x) d) (\<lambda>l.
     bind_err (index1 (sqrt_beta_t (buffers self)) i) (\<lambda>c_z.
     bind_err (tensor_binop (*) (scalar c_z) z) (\<lambda>r.
     tensor_binop (+) l r)))))))))))))"

text \<open>Line 249: whether the state after step \<open>i\<close> is stored, \<open>T\<close> being \<^verbatim>\<open>self.n_T\<close>.\<close>

definition stored :: "int \<Rightarrow> int \<Rightarrow> bool" where
  "stored T i = (i mod 20 = 0 \<or> i = T \<or> i < 8)"

text \<open>The loop over the timesteps still to do, threading \<open>(x_i, x_i_store)\<close>.\<close>

fun sample_loop ::
  "DDPM \<Rightarrow> nat \<Rightarrow> nat list \<Rightarrow> (int \<Rightarrow> real list) \<Rightarrow> int list \<Rightarrow> tensor \<Rightarrow> tensor list
     \<Rightarrow> error + tensor \<times> tensor list" where
  "sample_loop self n_sample size' zs [] x_i x_i_store = Inr (x_i, x_i_store)"
| "sample_loop self n_sample size' zs (i # rest) x_i x_i_store =
     (case sample_step self n_sample size' zs i x_i of
        Inl e \<Rightarrow> Inl e
      | Inr x' \<Rightarrow>
          sample_loop self n_sample size' zs rest x'
            (if stored (n_T self) i then x_i_store @ [x'] else x_i_store))"

text \<open>\<^verbatim>\<open>range(n_T, 0, -1)\<close>: \<open>n_T, n_T - 1, ..., 1\<close>.\<close>

definition sample_steps :: "int \<Rightarrow> int list" where
  "sample_steps T = rev [1..T]"

text \<open>
  \<^verbatim>\<open>DDPM.sample\<close>, lines 226 to 253 (\<open>size'\<close> is its argument \<^verbatim>\<open>size\<close>); \<open>x0\<close> are the entries drawn on line 228. It
  returns the final batch and the list of stored states.
\<close>

definition DDPM_sample ::
  "DDPM \<Rightarrow> nat \<Rightarrow> nat list \<Rightarrow> real list \<Rightarrow> (int \<Rightarrow> real list) \<Rightarrow> error + tensor \<times> tensor list" where
  "DDPM_sample self n_sample size' x0 zs =
     sample_loop self n_sample size' zs (sample_steps (n_T self)) (randn (n_sample # size') x0) []"

text \<open>
  The states the loop goes through: each timestep done, paired with \<open>x_i\<close> after it.
  The stored snapshots are stated against this list.
\<close>

fun sample_states ::
  "DDPM \<Rightarrow> nat \<Rightarrow> nat list \<Rightarrow> (int \<Rightarrow> real list) \<Rightarrow> int list \<Rightarrow> tensor
     \<Rightarrow> (int \<times> tensor) list" where
  "sample_states self n_sample size' zs [] x_i = []"
| "sample_states self n_sample size' zs (i # rest) x_i =
     (case sample_step self n_sample size' zs i x_i of
        Inl e \<Rightarrow> []
      | Inr x' \<Rightarrow> (i, x') # sample_states self n_sample size' zs rest x')"

text \<open>
  The cadence in the specification's words (section 4.3): every 20th step, the first
  step, and the final 8 steps, which are the timesteps \<open>8, 7, ..., 1\<close>.
\<close>

definition spec_stored :: "int \<Rightarrow> int \<Rightarrow> bool" where
  "spec_stored T i = (20 dvd i \<or> i = T \<or> i \<in> set (take 8 [1..T]))"

text \<open>
  The network's contract of section 4.2 of the specification, for image batches of
  shape \<open>xs\<close> and timestep tensors of shape \<open>tsh\<close>: the network returns a tensor of
  the shape of the image.
\<close>

definition net_contract ::
  "(tensor \<Rightarrow> tensor \<Rightarrow> error + tensor) \<Rightarrow> nat list \<Rightarrow> nat list \<Rightarrow> bool" where
  "net_contract net xs tsh =
     (\<forall>x t. shape x = xs \<and> wf_tensor x \<and> shape t = tsh \<and> wf_tensor t
        \<longrightarrow> (\<exists>y. net x t = Inr y \<and> shape y = xs \<and> wf_tensor y))"

section \<open>Instances used in examples\<close>

text \<open>
  The wrapper accepts any network. \<open>identity_net\<close> returns its image argument; it
  meets the contract for every shape.
\<close>

definition identity_net :: "tensor \<Rightarrow> tensor \<Rightarrow> error + tensor" where
  "identity_net x t = Inr x"

text \<open>
  A convolutional stack whose weights and biases are all zero: the convolution
  gives zeros, batch normalisation maps zeros to zeros, and \<open>GELU(0) = 0\<close>. With equal
  channel counts (kernel \<open>3\<close>, stride \<open>1\<close>, padding \<open>1\<close>) the shape is that of the input.
\<close>

definition zero_stack :: "tensor \<Rightarrow> error + tensor" where
  "zero_stack x = Inr \<lparr> shape = shape x, data = map (\<lambda>a. 0) (data x) \<rparr>"

section \<open>Facts about the schedule\<close>

lemma length_arange: "length (arange lo hi) = nat (hi - lo)"
  by (simp add: arange_def)

lemma nth_arange: "i < nat (hi - lo) \<Longrightarrow> arange lo hi ! i = real_of_int (lo + int i)"
  by (simp add: arange_def)

lemma length_beta_t: "length (beta_t b1 b2 T) = nat (T + 1)"
  by (simp add: beta_t_def length_arange)

lemma nth_beta_t:
  "i < nat (T + 1) \<Longrightarrow> beta_t b1 b2 T ! i = (b2 - b1) * real i / real_of_int T + b1"
  by (simp add: beta_t_def length_arange nth_arange)

lemma length_cumsum_from: "length (cumsum_from acc xs) = length xs"
  by (induction xs arbitrary: acc) auto

lemma nth_cumsum_from:
  "i < length xs \<Longrightarrow> cumsum_from acc xs ! i = acc + sum_list (take (Suc i) xs)"
proof (induction xs arbitrary: acc i)
  case Nil
  then show ?case by simp
next
  case (Cons x xs)
  then show ?case by (cases i) (auto simp: algebra_simps)
qed

lemma length_cumsum: "length (cumsum xs) = length xs"
  by (simp add: cumsum_def length_cumsum_from)

lemma nth_cumsum: "i < length xs \<Longrightarrow> cumsum xs ! i = sum_list (take (Suc i) xs)"
  by (simp add: cumsum_def nth_cumsum_from)

lemma spec_beta_bounds:
  assumes "0 < b1" "b1 < b2" "0 < T" "k \<le> nat T"
  shows "b1 \<le> spec_beta b1 b2 T k" "spec_beta b1 b2 T k \<le> b2"
proof -
  have q: "0 \<le> real k / real_of_int T" "real k / real_of_int T \<le> 1"
    using assms by (auto simp: divide_le_eq)
  show "b1 \<le> spec_beta b1 b2 T k"
    using assms q by (simp add: spec_beta_def)
  have "(b2 - b1) * (real k / real_of_int T) \<le> (b2 - b1) * 1"
    using assms q by (intro mult_left_mono) auto
  then show "spec_beta b1 b2 T k \<le> b2"
    by (simp add: spec_beta_def)
qed

lemma exp_sum_list_ln:
  fixes xs :: "real list"
  shows "\<forall>x\<in>set xs. 0 < x \<Longrightarrow> exp (sum_list (map ln xs)) = prod_list xs"
proof (induction xs)
  case Nil
  then show ?case by simp
next
  case (Cons a xs)
  have "exp (ln a + sum_list (map ln xs)) = exp (ln a) * exp (sum_list (map ln xs))"
    by (rule exp_add)
  also have "\<dots> = a * prod_list xs"
    using Cons by simp
  finally show ?case by simp
qed

lemma prod_list_take_Suc:
  "i < length xs \<Longrightarrow> prod_list (take (Suc i) xs) = (\<Prod>k\<le>i. xs ! k)"
proof (induction i)
  case 0
  then show ?case by (cases xs) auto
next
  case (Suc i)
  then show ?case by (simp add: take_Suc_conv_app_nth [of "Suc i"])
qed

lemma sum_list_take_antimono:
  fixes xs :: "real list"
  shows "\<forall>x\<in>set xs. x \<le> 0 \<Longrightarrow> i \<le> j \<Longrightarrow> sum_list (take j xs) \<le> sum_list (take i xs)"
proof (induction xs arbitrary: i j)
  case Nil
  then show ?case by simp
next
  case (Cons x xs)
  show ?case
  proof (cases i)
    case 0
    have "sum_list (take j (x # xs)) \<le> 0"
      using Cons.prems(1) set_take_subset [of j "x # xs"] by (intro sum_list_nonpos) blast
    with 0 show ?thesis by simp
  next
    case (Suc i')
    then obtain j' where j: "j = Suc j'" "i' \<le> j'"
      using Cons.prems(2) by (cases j) auto
    with Suc Cons show ?thesis by simp
  qed
qed


lemma ddpm_schedules_fields:
  assumes "ddpm_schedules b1 b2 T = Inr s"
  shows "alpha_t s = map (\<lambda>x. 1 - x) (beta_t b1 b2 T)"
    and "sqrt_beta_t s = map sqrt (beta_t b1 b2 T)"
    and "alphabar_t s = map exp (cumsum (map ln (alpha_t s)))"
    and "sqrtab s = map sqrt (alphabar_t s)"
    and "oneover_sqrta s = map (\<lambda>x. 1 / sqrt x) (alpha_t s)"
    and "sqrtmab s = map (\<lambda>x. sqrt (1 - x)) (alphabar_t s)"
    and "mab_over_sqrtmab s = map2 (\<lambda>x y. (1 - x) / y) (alpha_t s) (sqrtmab s)"
  using assms by (auto simp: ddpm_schedules_def Let_def split: if_splits)

lemma ddpm_schedules_accepts:
  "b1 < b2 \<Longrightarrow> b2 < 1 \<Longrightarrow> \<exists>s. ddpm_schedules b1 b2 T = Inr s"
  by (simp add: ddpm_schedules_def Let_def)

lemma ddpm_schedules_lengths:
  assumes "ddpm_schedules b1 b2 T = Inr s"
  shows "length (alpha_t s) = nat (T + 1)"
    and "length (sqrt_beta_t s) = nat (T + 1)"
    and "length (alphabar_t s) = nat (T + 1)"
    and "length (sqrtab s) = nat (T + 1)"
    and "length (oneover_sqrta s) = nat (T + 1)"
    and "length (sqrtmab s) = nat (T + 1)"
    and "length (mab_over_sqrtmab s) = nat (T + 1)"
  by (simp_all add: ddpm_schedules_fields [OF assms] length_beta_t length_cumsum)

lemma nth_beta_t_spec:
  "i < nat (T + 1) \<Longrightarrow> beta_t b1 b2 T ! i = spec_beta b1 b2 T i"
  by (simp add: nth_beta_t spec_beta_def)

lemma nth_alpha_t:
  assumes "ddpm_schedules b1 b2 T = Inr s" "i < nat (T + 1)"
  shows "alpha_t s ! i = spec_alpha b1 b2 T i"
  using assms(2)
  by (simp add: ddpm_schedules_fields(1) [OF assms(1)] length_beta_t nth_beta_t_spec spec_alpha_def)

lemma spec_alpha_bounds:
  assumes "0 < b1" "b1 < b2" "b2 < 1" "0 < T" "k \<le> nat T"
  shows "0 < spec_alpha b1 b2 T k" "spec_alpha b1 b2 T k < 1"
  using spec_beta_bounds [OF assms(1,2,4,5)] assms by (simp_all add: spec_alpha_def)

lemma spec_alphabar_pos:
  assumes "0 < b1" "b1 < b2" "b2 < 1" "0 < T" "i \<le> nat T"
  shows "0 < spec_alphabar b1 b2 T i"
  unfolding spec_alphabar_def
  using assms by (intro prod_pos) (auto intro: spec_alpha_bounds)

lemma spec_alphabar_Suc:
  "spec_alphabar b1 b2 T (Suc i) = spec_alphabar b1 b2 T i * spec_alpha b1 b2 T (Suc i)"
  by (simp add: spec_alphabar_def)

lemma spec_alphabar_less_1:
  assumes "0 < b1" "b1 < b2" "b2 < 1" "0 < T" "i \<le> nat T"
  shows "spec_alphabar b1 b2 T i < 1"
  using assms(5)
proof (induction i)
  case 0
  then show ?case
    using spec_alpha_bounds(2) [OF assms(1-4), of 0] by (simp add: spec_alphabar_def)
next
  case (Suc i)
  have "spec_alphabar b1 b2 T i < 1" "0 < spec_alphabar b1 b2 T i"
    using Suc spec_alphabar_pos [OF assms(1-4), of i] by simp_all
  moreover have "0 < spec_alpha b1 b2 T (Suc i)" "spec_alpha b1 b2 T (Suc i) < 1"
    using spec_alpha_bounds [OF assms(1-4) Suc.prems] by simp_all
  ultimately have "spec_alphabar b1 b2 T i * spec_alpha b1 b2 T (Suc i) < 1 * 1"
    by (intro mult_strict_mono) simp_all
  then show ?case by (simp add: spec_alphabar_Suc)
qed

lemma nth_alphabar_t:
  assumes s: "ddpm_schedules b1 b2 T = Inr s"
    and v: "0 < b1" "b1 < b2" "b2 < 1" "0 < T" and i: "i \<le> nat T"
  shows "alphabar_t s ! i = spec_alphabar b1 b2 T i"
proof -
  let ?a = "alpha_t s"
  have len: "length ?a = nat (T + 1)"
    by (rule ddpm_schedules_lengths [OF s])
  have il: "i < length ?a"
    using i v len by simp
  have pos: "\<forall>x\<in>set (take (Suc i) ?a). 0 < x"
  proof
    fix x assume "x \<in> set (take (Suc i) ?a)"
    then obtain k where k: "k < Suc i" "k < length ?a" "x = ?a ! k"
      by (auto simp: in_set_conv_nth)
    then have "x = spec_alpha b1 b2 T k"
      using nth_alpha_t [OF s, of k] len by simp
    moreover have "k \<le> nat T" using k i by simp
    ultimately show "0 < x"
      using spec_alpha_bounds(1) [OF v] by simp
  qed
  have "alphabar_t s ! i = exp (sum_list (take (Suc i) (map ln ?a)))"
    using il by (simp add: ddpm_schedules_fields(3) [OF s] length_cumsum nth_cumsum)
  also have "\<dots> = exp (sum_list (map ln (take (Suc i) ?a)))"
    by (simp add: take_map)
  also have "\<dots> = prod_list (take (Suc i) ?a)"
    by (rule exp_sum_list_ln [OF pos])
  also have "\<dots> = (\<Prod>k\<le>i. ?a ! k)"
    by (rule prod_list_take_Suc [OF il])
  also have "\<dots> = (\<Prod>k\<le>i. spec_alpha b1 b2 T k)"
    using il len by (intro prod.cong) (auto simp: nth_alpha_t [OF s])
  finally show ?thesis by (simp add: spec_alphabar_def)
qed

section \<open>Claims about the schedule\<close>

lemma ddpm_schedules_rejects_iff:
  "(ddpm_schedules b1 b2 T = Inl AssertionError) = (b2 \<le> b1 \<or> 1 \<le> b2)"
  by (auto simp: ddpm_schedules_def Let_def)

text \<open>
  Claim C2: \<^verbatim>\<open>ddpm_schedules\<close> rejects its input whenever \<open>\<beta>\<^sub>1 \<ge> \<beta>\<^sub>2\<close> or an
  endpoint lies outside \<open>(0, 1)\<close>, in particular \<open>\<beta>\<^sub>1 \<le> 0\<close>. The assertion of line 170
  tests only \<open>beta1 < beta2 < 1.0\<close> (lemma \<open>ddpm_schedules_rejects_iff\<close>), although its
  message reads "beta1 and beta2 must be in (0, 1)": a negative or zero \<open>\<beta>\<^sub>1\<close> below
  \<open>\<beta>\<^sub>2\<close> is accepted. The theorem evaluates the code at \<open>(-0.5, 0.5, 10)\<close> and at
  \<open>(0, 0.5, 10)\<close>: no assertion error.
\<close>

theorem ddpm_schedules_accepts_negative_beta1:
  "ddpm_schedules (- 1 / 2) (1 / 2) 10 \<noteq> Inl AssertionError
   \<and> \<not> isl (ddpm_schedules (- 1 / 2) (1 / 2) 10)
   \<and> ddpm_schedules 0 (1 / 2) 10 \<noteq> Inl AssertionError"
  by (simp add: ddpm_schedules_def Let_def)

text \<open>
  Claim C1, as amended: for \<open>0 < \<beta>\<^sub>1 < \<beta>\<^sub>2 < 1\<close> and \<open>T > 0\<close> the schedule is returned,
  \<open>alphabar_t\<close> is non-increasing over the indices \<open>0..T\<close>, its entry at index \<open>0\<close> is
  \<open>1 - \<beta>\<^sub>1\<close> (not \<open>1\<close>: the cumulative sum of line 176 includes \<open>log \<alpha>\<^sub>0\<close>), and
  \<open>sqrtab[t]\<^sup>2 + sqrtmab[t]\<^sup>2 = 1\<close> for every \<open>t\<close> in \<open>0..T\<close>.
\<close>

theorem ddpm_schedules_alphabar:
  assumes "0 < b1" "b1 < b2" "b2 < 1" "0 < T"
  shows "\<exists>s. ddpm_schedules b1 b2 T = Inr s
    \<and> (\<forall>i j. i \<le> j \<and> j \<le> nat T \<longrightarrow> alphabar_t s ! j \<le> alphabar_t s ! i)
    \<and> alphabar_t s ! 0 = 1 - b1
    \<and> (\<forall>t. t \<le> nat T \<longrightarrow> (sqrtab s ! t)\<^sup>2 + (sqrtmab s ! t)\<^sup>2 = 1)"
proof -
  obtain s where s: "ddpm_schedules b1 b2 T = Inr s"
    using ddpm_schedules_accepts [OF assms(2,3)] by blast
  note ab = nth_alphabar_t [OF s assms]
  have len: "length (alphabar_t s) = nat (T + 1)"
    by (rule ddpm_schedules_lengths [OF s])
  have step: "alphabar_t s ! Suc i \<le> alphabar_t s ! i" if "Suc i \<le> nat T" for i
  proof -
    have "spec_alphabar b1 b2 T i * spec_alpha b1 b2 T (Suc i) \<le> spec_alphabar b1 b2 T i * 1"
      using spec_alphabar_pos [OF assms, of i] spec_alpha_bounds(2) [OF assms that] that
      by (intro mult_left_mono) simp_all
    then show ?thesis
      using that by (simp add: ab spec_alphabar_Suc)
  qed
  have mono: "alphabar_t s ! j \<le> alphabar_t s ! i" if "i \<le> j" "j \<le> nat T" for i j
    using that
  proof (induction j)
    case 0
    then show ?case by simp
  next
    case (Suc j)
    show ?case
    proof (cases "i = Suc j")
      case True
      then show ?thesis by simp
    next
      case False
      then have "alphabar_t s ! j \<le> alphabar_t s ! i"
        using Suc by simp
      moreover have "alphabar_t s ! Suc j \<le> alphabar_t s ! j"
        using step Suc.prems by simp
      ultimately show ?thesis by simp
    qed
  qed
  have zero: "alphabar_t s ! 0 = 1 - b1"
    by (simp add: ab spec_alphabar_def spec_alpha_def spec_beta_def)
  have sq: "(sqrtab s ! t)\<^sup>2 + (sqrtmab s ! t)\<^sup>2 = 1" if "t \<le> nat T" for t
  proof -
    have "0 < alphabar_t s ! t" "alphabar_t s ! t < 1"
      using spec_alphabar_pos [OF assms that] spec_alphabar_less_1 [OF assms that] ab [OF that]
      by simp_all
    moreover have "t < length (alphabar_t s)"
      using that assms len by simp
    ultimately show ?thesis
      by (simp add: ddpm_schedules_fields(4,6) [OF s])
  qed
  show ?thesis
    using s mono zero sq by blast
qed

text \<open>The theorem at \<open>\<beta>\<^sub>1 = 1/4\<close>, \<open>\<beta>\<^sub>2 = 1/2\<close>, \<open>T = 2\<close>.\<close>

theorem ddpm_schedules_alphabar_witness:
  "(0::real) < 1 / 4 \<and> (1 / 4 :: real) < 1 / 2 \<and> (1 / 2 :: real) < 1 \<and> (0::int) < 2
   \<and> (\<exists>s. ddpm_schedules (1 / 4) (1 / 2) 2 = Inr s
      \<and> alphabar_t s ! 2 \<le> alphabar_t s ! 1
      \<and> alphabar_t s ! 0 = 3 / 4
      \<and> (sqrtab s ! 2)\<^sup>2 + (sqrtmab s ! 2)\<^sup>2 = 1)"
proof -
  have h: "(0::real) < 1 / 4" "(1 / 4 :: real) < 1 / 2" "(1 / 2 :: real) < 1" "(0::int) < 2"
    by simp_all
  obtain s where s: "ddpm_schedules (1 / 4) (1 / 2) 2 = Inr s"
    and m: "\<forall>i j. i \<le> j \<and> j \<le> nat 2 \<longrightarrow> alphabar_t s ! j \<le> alphabar_t s ! i"
    and z: "alphabar_t s ! 0 = 1 - 1 / 4"
    and q: "\<forall>t. t \<le> nat 2 \<longrightarrow> (sqrtab s ! t)\<^sup>2 + (sqrtmab s ! t)\<^sup>2 = 1"
    using ddpm_schedules_alphabar [OF h] by blast
  have "alphabar_t s ! 2 \<le> alphabar_t s ! 1"
    using m by simp
  moreover have "(sqrtab s ! 2)\<^sup>2 + (sqrtmab s ! 2)\<^sup>2 = 1"
    using q by simp
  ultimately show ?thesis
    using s z h by auto
qed

text \<open>
  Claim C1 as stated fails: at \<open>\<beta>\<^sub>1 = 1/4\<close>, \<open>\<beta>\<^sub>2 = 1/2\<close>, \<open>T = 2\<close> the entry of
  \<open>alphabar_t\<close> at index \<open>0\<close> is \<open>3/4\<close>.
\<close>

theorem alphabar_t_0_counterexample:
  "\<not> isl (ddpm_schedules (1 / 4) (1 / 2) 2)
   \<and> alphabar_t (projr (ddpm_schedules (1 / 4) (1 / 2) 2)) ! 0 = 3 / 4
   \<and> alphabar_t (projr (ddpm_schedules (1 / 4) (1 / 2) 2)) ! 0 \<noteq> 1"
proof -
  obtain s where s: "ddpm_schedules (1 / 4) (1 / 2) 2 = Inr s"
    using ddpm_schedules_accepts [of "1 / 4" "1 / 2" 2] by auto
  have "alphabar_t s ! 0 = spec_alphabar (1 / 4) (1 / 2) 2 0"
    by (rule nth_alphabar_t [OF s]) simp_all
  then have "alphabar_t s ! 0 = 3 / 4"
    by (simp add: spec_alphabar_def spec_alpha_def spec_beta_def)
  then show ?thesis
    using s by simp
qed

lemma beta_t_strict_mono:
  assumes "b1 < b2" "0 < T" "i < j" "j \<le> nat T"
  shows "beta_t b1 b2 T ! i < beta_t b1 b2 T ! j"
proof -
  have "(b2 - b1) * real i < (b2 - b1) * real j"
    using assms(1,3) by simp
  then have "(b2 - b1) * real i / real_of_int T < (b2 - b1) * real j / real_of_int T"
    using assms(2) by (simp add: divide_strict_right_mono)
  then show ?thesis
    using assms by (simp add: nth_beta_t)
qed

lemma nth_oneover_sqrta:
  assumes "ddpm_schedules b1 b2 T = Inr s" "i < nat (T + 1)"
  shows "oneover_sqrta s ! i = 1 / sqrt (spec_alpha b1 b2 T i)"
  using assms(2) ddpm_schedules_lengths(1) [OF assms(1)]
  by (simp add: ddpm_schedules_fields(5) [OF assms(1)] nth_alpha_t [OF assms])

lemma oneover_sqrta_1_bounds:
  "1000066 / 1000000 < 1 / sqrt (5999201 / 6000000 :: real)"
  "1 / sqrt (5999201 / 6000000 :: real) < 1000067 / 1000000"
proof -
  have u: "sqrt (5999201 / 6000000 :: real) < 1000000 / 1000066"
    by (rule real_less_lsqrt) (simp_all add: power2_eq_square)
  have l: "(1000000 / 1000067 :: real) < sqrt (5999201 / 6000000)"
    by (rule real_less_rsqrt) (simp add: power2_eq_square)
  have p: "0 < sqrt (5999201 / 6000000 :: real)" by simp
  show "1000066 / 1000000 < 1 / sqrt (5999201 / 6000000 :: real)"
    using u p by (simp add: field_simps)
  show "1 / sqrt (5999201 / 6000000 :: real) < 1000067 / 1000000"
    using l p by (simp add: field_simps)
qed

lemma oneover_sqrta_0_bounds:
  "1000050 / 1000000 < 1 / sqrt (9999 / 10000 :: real)"
  "1 / sqrt (9999 / 10000 :: real) < 1000051 / 1000000"
proof -
  have u: "sqrt (9999 / 10000 :: real) < 1000000 / 1000050"
    by (rule real_less_lsqrt) (simp_all add: power2_eq_square)
  have l: "(1000000 / 1000051 :: real) < sqrt (9999 / 10000)"
    by (rule real_less_rsqrt) (simp add: power2_eq_square)
  have p: "0 < sqrt (9999 / 10000 :: real)" by simp
  show "1000050 / 1000000 < 1 / sqrt (9999 / 10000 :: real)"
    using u p by (simp add: field_simps)
  show "1 / sqrt (9999 / 10000 :: real) < 1000051 / 1000000"
    using l p by (simp add: field_simps)
qed


lemma oneover_sqrta_600:
  assumes "ddpm_schedules (1 / 10000) (1 / 50) 600 = Inr s"
  shows "oneover_sqrta s ! 0 = 1 / sqrt (9999 / 10000)"
    and "oneover_sqrta s ! 1 = 1 / sqrt (5999201 / 6000000)"
proof -
  show "oneover_sqrta s ! 0 = 1 / sqrt (9999 / 10000)"
    by (simp add: nth_oneover_sqrta [OF assms] spec_alpha_def spec_beta_def)
  have a: "spec_alpha (1 / 10000) (1 / 50) 600 1 = 5999201 / 6000000"
    by (simp add: spec_alpha_def spec_beta_def)
  have "oneover_sqrta s ! 1 = 1 / sqrt (spec_alpha (1 / 10000) (1 / 50) 600 1)"
    by (rule nth_oneover_sqrta [OF assms]) simp
  then show "oneover_sqrta s ! 1 = 1 / sqrt (5999201 / 6000000)"
    unfolding a .
qed

text \<open>
  Claim C7, as amended: for \<open>\<beta>\<^sub>1 = 1e-4\<close>, \<open>\<beta>\<^sub>2 = 0.02\<close>, \<open>T = 600\<close> the schedule is
  returned, \<open>\<beta>\<^sub>t\<close> (line 172, and \<open>alpha_t = 1 - \<beta>\<^sub>t\<close>) is strictly increasing over
  the indices \<open>0..600\<close>, and \<open>oneover_sqrta\<close> equals \<open>1 / \<surd>(1 - 1e-4)\<close> at index \<open>0\<close>, where
  \<open>\<beta> = \<beta>\<^sub>1\<close>. At index \<open>1\<close> it is \<open>1 / \<surd>(1 - \<beta>\<^sub>1)\<close> with
  \<open>\<beta>\<^sub>1 = 1e-4 + (0.02 - 1e-4) / 600\<close>, within \<open>2e-5\<close> of \<open>1 / \<surd>(1 - 1e-4)\<close>.
\<close>

theorem ddpm_schedules_600:
  "\<exists>s. ddpm_schedules (1 / 10000) (1 / 50) 600 = Inr s
     \<and> (\<forall>i j. i < j \<and> j \<le> 600 \<longrightarrow>
           beta_t (1 / 10000) (1 / 50) 600 ! i < beta_t (1 / 10000) (1 / 50) 600 ! j)
     \<and> alpha_t s = map (\<lambda>x. 1 - x) (beta_t (1 / 10000) (1 / 50) 600)
     \<and> \<bar>oneover_sqrta s ! 0 - 1 / sqrt (1 - 1 / 10000)\<bar> \<le> 1 / 1000000
     \<and> oneover_sqrta s ! 1 = 1 / sqrt (1 - (1 / 10000 + (1 / 50 - 1 / 10000) / 600))
     \<and> \<bar>oneover_sqrta s ! 1 - 1 / sqrt (1 - 1 / 10000)\<bar> \<le> 2 / 100000"
proof -
  obtain s where s: "ddpm_schedules (1 / 10000) (1 / 50) 600 = Inr s"
    using ddpm_schedules_accepts [of "1 / 10000" "1 / 50" 600] by auto
  have mono: "beta_t (1 / 10000) (1 / 50) 600 ! i < beta_t (1 / 10000) (1 / 50) 600 ! j"
    if "i < j" "j \<le> 600" for i j :: nat
    using that by (intro beta_t_strict_mono) simp_all
  have z: "oneover_sqrta s ! 0 = 1 / sqrt (1 - 1 / 10000)"
    by (simp add: oneover_sqrta_600 [OF s])
  have e0: "(1 - 1 / 10000 :: real) = 9999 / 10000"
    and e1: "(1 - (1 / 10000 + (1 / 50 - 1 / 10000) / 600) :: real) = 5999201 / 6000000"
    by simp_all
  have o: "oneover_sqrta s ! 1 = 1 / sqrt (1 - (1 / 10000 + (1 / 50 - 1 / 10000) / 600))"
    unfolding e1 by (rule oneover_sqrta_600(2) [OF s])
  have "\<bar>1 / sqrt (5999201 / 6000000 :: real) - 1 / sqrt (9999 / 10000)\<bar> \<le> 2 / 100000"
    using oneover_sqrta_1_bounds oneover_sqrta_0_bounds by linarith
  then have d: "\<bar>oneover_sqrta s ! 1 - 1 / sqrt (1 - 1 / 10000)\<bar> \<le> 2 / 100000"
    unfolding e0 oneover_sqrta_600(2) [OF s] .
  show ?thesis
    using s mono z o d ddpm_schedules_fields(1) [OF s] by auto
qed

text \<open>The theorem at the index pairs \<open>(0, 1)\<close> and \<open>(599, 600)\<close>.\<close>

theorem ddpm_schedules_600_witness:
  "\<exists>s. ddpm_schedules (1 / 10000) (1 / 50) 600 = Inr s
     \<and> beta_t (1 / 10000) (1 / 50) 600 ! 0 < beta_t (1 / 10000) (1 / 50) 600 ! 1
     \<and> beta_t (1 / 10000) (1 / 50) 600 ! 599 < beta_t (1 / 10000) (1 / 50) 600 ! 600
     \<and> \<bar>oneover_sqrta s ! 1 - 1 / sqrt (1 - 1 / 10000)\<bar> \<le> 2 / 100000"
proof -
  obtain s where s: "ddpm_schedules (1 / 10000) (1 / 50) 600 = Inr s"
    and m: "\<forall>i j. i < j \<and> j \<le> 600 \<longrightarrow>
           beta_t (1 / 10000) (1 / 50) 600 ! i < beta_t (1 / 10000) (1 / 50) 600 ! j"
    and d: "\<bar>oneover_sqrta s ! 1 - 1 / sqrt (1 - 1 / 10000)\<bar> \<le> 2 / 100000"
    using ddpm_schedules_600 by blast
  have "beta_t (1 / 10000) (1 / 50) 600 ! 0 < beta_t (1 / 10000) (1 / 50) 600 ! 1"
    using m by simp
  moreover have "beta_t (1 / 10000) (1 / 50) 600 ! 599 < beta_t (1 / 10000) (1 / 50) 600 ! 600"
    using m by simp
  ultimately show ?thesis
    using s d by blast
qed

text \<open>
  Claim C7 as stated fails: \<open>oneover_sqrta[1]\<close> is about \<open>1.0000666\<close> and
  \<open>1 / \<surd>(1 - 1e-4)\<close> about \<open>1.0000500\<close>; they differ by more than \<open>1e-6\<close>.
\<close>

theorem oneover_sqrta_1_counterexample:
  "\<not> isl (ddpm_schedules (1 / 10000) (1 / 50) 600)
   \<and> \<not> \<bar>oneover_sqrta (projr (ddpm_schedules (1 / 10000) (1 / 50) 600)) ! 1
          - 1 / sqrt (1 - 1 / 10000)\<bar> \<le> 1 / 1000000"
proof -
  obtain s where s: "ddpm_schedules (1 / 10000) (1 / 50) 600 = Inr s"
    using ddpm_schedules_accepts [of "1 / 10000" "1 / 50" 600] by auto
  have e0: "(1 - 1 / 10000 :: real) = 9999 / 10000"
    by simp
  have "\<not> \<bar>1 / sqrt (5999201 / 6000000 :: real) - 1 / sqrt (9999 / 10000)\<bar> \<le> 1 / 1000000"
    using oneover_sqrta_1_bounds oneover_sqrta_0_bounds by linarith
  then have "\<not> \<bar>oneover_sqrta s ! 1 - 1 / sqrt (1 - 1 / 10000)\<bar> \<le> 1 / 1000000"
    unfolding e0 oneover_sqrta_600(2) [OF s] .
  then show ?thesis
    unfolding s by (simp del: One_nat_def)
qed

section \<open>Facts about tensors\<close>

lemma bind_err_simps [simp]:
  "bind_err (Inl e) f = Inl e"
  "bind_err (Inr v) f = f v"
  by (simp_all add: bind_err_def)

lemma concat_chunks: "concat (chunks a m d) = take (a * m) d"
proof (induction a arbitrary: d)
  case 0
  then show ?case by simp
next
  case (Suc a)
  have "take m d @ take (a * m) (drop m d) = take (m + a * m) d"
    by (simp add: take_add)
  with Suc show ?case by simp
qed

lemma length_chunks: "length (chunks a m d) = a"
  by (induction a arbitrary: d) auto

lemma in_chunks_length:
  "a * m \<le> length d \<Longrightarrow> c \<in> set (chunks a m d) \<Longrightarrow> length c = m"
proof (induction a arbitrary: d)
  case 0
  then show ?case by simp
next
  case (Suc a)
  from Suc.prems(2) consider "c = take m d" | "c \<in> set (chunks a m (drop m d))"
    by auto
  then show ?case
  proof cases
    case 1
    with Suc.prems(1) show ?thesis by simp
  next
    case 2
    have "a * m \<le> length (drop m d)"
      using Suc.prems(1) by simp
    from Suc.IH [OF this 2] show ?thesis .
  qed
qed

lemma expand_same: "length d = prod_list s \<Longrightarrow> expand s s d = d"
proof (induction s arbitrary: d)
  case Nil
  then show ?case by simp
next
  case (Cons a s)
  have "map (expand s s) (chunks a (prod_list s) d) = chunks a (prod_list s) d"
  proof (rule map_idI)
    fix c assume "c \<in> set (chunks a (prod_list s) d)"
    then have "length c = prod_list s"
      using in_chunks_length [of a "prod_list s" d c] Cons.prems by simp
    then show "expand s s c = c" by (rule Cons.IH)
  qed
  then show ?case
    using Cons.prems by (simp add: concat_chunks)
qed

lemma concat_replicate_replicate: "concat (replicate b (replicate k c)) = replicate (b * k) c"
  by (induction b) (simp_all add: replicate_add)

lemma expand_ones: "expand (replicate (length t) (Suc 0)) t [c] = replicate (prod_list t) c"
proof (induction t)
  case Nil
  then show ?case by simp
next
  case (Cons b t)
  show ?case
    using Cons.IH by (auto simp: Let_def concat_replicate_replicate)
qed

lemma pad_shape_same [simp]: "pad_shape (length s) s = s"
  by (simp add: pad_shape_def)

lemma pad_shape_Nil [simp]: "pad_shape n [] = replicate n 1"
  by (simp add: pad_shape_def)

lemma broadcast_rev_same: "broadcast_rev s s = Some s"
  by (induction s) auto

lemma broadcast_rev_Nil2: "broadcast_rev s [] = Some s"
  by (cases s) auto

lemma broadcast_shapes_same [simp]: "broadcast_shapes s s = Some s"
  by (simp add: broadcast_shapes_def broadcast_rev_same)

lemma broadcast_shapes_Nil [simp]:
  "broadcast_shapes [] s = Some s" "broadcast_shapes s [] = Some s"
  by (simp_all add: broadcast_shapes_def broadcast_rev_Nil2)

lemma map2_replicate_right:
  "n = length d \<Longrightarrow> map2 f d (replicate n c) = map (\<lambda>a. f a c) d"
  by (induction d arbitrary: n) auto

lemma map2_replicate_left:
  "n = length d \<Longrightarrow> map2 f (replicate n c) d = map (f c) d"
  by (induction d arbitrary: n) auto

lemma tensor_binop_same:
  assumes "shape x = shape y" "wf_tensor x" "wf_tensor y"
  shows "tensor_binop f x y = Inr \<lparr> shape = shape x, data = map2 f (data x) (data y) \<rparr>"
  using assms by (simp add: tensor_binop_def wf_tensor_def expand_same)

lemma tensor_binop_scalar_right:
  assumes "wf_tensor x"
  shows "tensor_binop f x (scalar c) = Inr \<lparr> shape = shape x, data = map (\<lambda>a. f a c) (data x) \<rparr>"
  using assms
  by (simp add: tensor_binop_def wf_tensor_def scalar_def expand_same expand_ones
      map2_replicate_right)

lemma tensor_binop_scalar_left:
  assumes "wf_tensor x"
  shows "tensor_binop f (scalar c) x = Inr \<lparr> shape = shape x, data = map (f c) (data x) \<rparr>"
  using assms
  by (simp add: tensor_binop_def wf_tensor_def scalar_def expand_same expand_ones
      map2_replicate_left)

lemma tile_ones:
  "length d = prod_list s \<Longrightarrow> tile s (replicate (length s) (Suc 0)) d = d"
proof (induction s arbitrary: d)
  case Nil
  then show ?case by simp
next
  case (Cons a s)
  have "map (tile s (replicate (length s) (Suc 0))) (chunks a (prod_list s) d)
      = chunks a (prod_list s) d"
  proof (rule map_idI)
    fix c assume "c \<in> set (chunks a (prod_list s) d)"
    then have "length c = prod_list s"
      using in_chunks_length [of a "prod_list s" d c] Cons.prems by simp
    then show "tile s (replicate (length s) (Suc 0)) c = c" by (rule Cons.IH)
  qed
  then show ?case
    using Cons.prems by (simp add: concat_chunks)
qed

lemma tile_double:
  assumes "length d = a * prod_list s"
  shows "tile (a # s) (2 # replicate (length s) (Suc 0)) d = d @ d"
proof -
  have "map (tile s (replicate (length s) (Suc 0))) (chunks a (prod_list s) d)
      = chunks a (prod_list s) d"
  proof (rule map_idI)
    fix c assume "c \<in> set (chunks a (prod_list s) d)"
    then have "length c = prod_list s"
      using in_chunks_length [of a "prod_list s" d c] assms by simp
    then show "tile s (replicate (length s) (Suc 0)) c = c" by (rule tile_ones)
  qed
  then show ?thesis
    using assms by (simp add: concat_chunks numeral_2_eq_2)
qed

lemma length3E:
  assumes "length (s :: nat list) = 3"
  obtains c h w where "s = [c, h, w]"
  using assms by (cases s; cases "tl s"; cases "tl (tl s)") (auto simp: numeral_3_eq_3)

lemma tile_double4:
  assumes "length d = a * (c * (h * w))"
  shows "tile [a, c, h, w] [2, 1, 1, 1] d = d @ d"
  using tile_double [of d a "[c, h, w]"] assms by simp

lemma tensor_repeat_double:
  assumes "shape x = a # s" "length s = 3" "wf_tensor x"
  shows "tensor_repeat x [2, 1, 1, 1] = Inr \<lparr> shape = (2 * a) # s, data = data x @ data x \<rparr>"
proof -
  obtain c h w where s: "s = [c, h, w]"
    using assms(2) by (rule length3E)
  have "tile [a, c, h, w] [2, 1, 1, 1] (data x) = data x @ data x"
    using assms(1,3) s by (intro tile_double4) (simp add: wf_tensor_def)
  then show ?thesis
    using assms(1) s by (simp add: tensor_repeat_def pad_shape_def)
qed

lemma tensor_repeat_t_is:
  "tensor_repeat \<lparr> shape = [1], data = [v] \<rparr> [n, 1, 1, 1]
     = Inr \<lparr> shape = [n, 1, 1, 1], data = replicate n v \<rparr>"
proof -
  have "concat (replicate n [v]) = replicate n v"
    using concat_replicate_replicate [of n 1 v] by simp
  then show ?thesis
    by (simp add: tensor_repeat_def pad_shape_def)
qed

lemma slice_to_Cons:
  "shape x = a # s \<Longrightarrow> slice_to x n
     = Inr \<lparr> shape = min n a # s, data = take (min n a * prod_list s) (data x) \<rparr>"
  by (simp add: slice_to_def)


lemma sample_step_value:
  assumes x: "shape x_i = n # sz" "length sz = 3" "wf_tensor x_i"
    and net: "nn_model self \<lparr> shape = (2 * n) # sz, data = data x_i @ data x_i \<rparr>
                \<lparr> shape = [2 * n, 1, 1, 1],
                  data = replicate n (real_of_int i / real_of_int (n_T self))
                       @ replicate n (real_of_int i / real_of_int (n_T self)) \<rparr> = Inr out"
    and out: "shape out = (2 * n) # sz" "wf_tensor out"
    and idx: "index1 (oneover_sqrta (buffers self)) i = Inr c_x"
      "index1 (mab_over_sqrtmab (buffers self)) i = Inr c_e"
      "index1 (sqrt_beta_t (buffers self)) i = Inr c_z"
    and z: "1 < i \<Longrightarrow> length (zs i) = n * prod_list sz"
  shows "sample_step self n sz zs i x_i
     = Inr \<lparr> shape = n # sz,
             data = map (\<lambda>k. c_x * (data x_i ! k - data out ! k * c_e)
                              + c_z * (if 1 < i then zs i ! k else 0))
                        [0..<n * prod_list sz] \<rparr>"
proof -
  let ?v = "real_of_int i / real_of_int (n_T self)"
  let ?m = "n * prod_list sz"
  let ?x_d = "\<lparr> shape = (2 * n) # sz, data = data x_i @ data x_i \<rparr>"
  let ?t_is = "\<lparr> shape = [n, 1, 1, 1], data = replicate n ?v \<rparr>"
  let ?t_d = "\<lparr> shape = [2 * n, 1, 1, 1], data = replicate n ?v @ replicate n ?v \<rparr>"
  let ?eps = "\<lparr> shape = n # sz, data = take ?m (data out) \<rparr>"
  let ?e = "\<lparr> shape = n # sz, data = map (\<lambda>a. a * c_e) (take ?m (data out)) \<rparr>"
  let ?d = "\<lparr> shape = n # sz, data = map2 (-) (data x_i) (map (\<lambda>a. a * c_e) (take ?m (data out))) \<rparr>"
  let ?l = "\<lparr> shape = n # sz,
              data = map ((*) c_x) (map2 (-) (data x_i) (map (\<lambda>a. a * c_e) (take ?m (data out)))) \<rparr>"
  let ?res = "\<lparr> shape = n # sz,
             data = map (\<lambda>k. c_x * (data x_i ! k - data out ! k * c_e)
                              + c_z * (if 1 < i then zs i ! k else 0))
                        [0..<?m] \<rparr>"
  have lx: "length (data x_i) = ?m"
    using x by (simp add: wf_tensor_def)
  have lo: "length (data out) = 2 * ?m"
    using out by (simp add: wf_tensor_def)
  have r1: "tensor_repeat \<lparr> shape = [1], data = [?v] \<rparr> [n, 1, 1, 1] = Inr ?t_is"
    by (rule tensor_repeat_t_is)
  have r2: "tensor_repeat x_i [2, 1, 1, 1] = Inr ?x_d"
    by (rule tensor_repeat_double [OF x])
  have r3: "tensor_repeat ?t_is [2, 1, 1, 1] = Inr ?t_d"
    using tensor_repeat_double [of ?t_is n "[1, 1, 1]"] by (simp add: wf_tensor_def)
  have s1: "slice_to out n = Inr ?eps"
    using slice_to_Cons [OF out(1), of n] by simp
  have s2: "slice_to ?x_d n = Inr x_i"
    using slice_to_Cons [of ?x_d "2 * n" sz n] x lx by simp
  have we: "wf_tensor ?eps"
    using lo by (simp add: wf_tensor_def)
  have b1: "tensor_binop (*) ?eps (scalar c_e) = Inr ?e"
    using tensor_binop_scalar_right [OF we, of "(*)" c_e] by simp
  have b2: "tensor_binop (-) x_i ?e = Inr ?d"
    using tensor_binop_same [of x_i ?e "(-)"] x lo by (simp add: wf_tensor_def)
  have wd: "wf_tensor ?d"
    using lx lo by (simp add: wf_tensor_def)
  have b3: "tensor_binop (*) (scalar c_x) ?d = Inr ?l"
    using tensor_binop_scalar_left [OF wd, of "(*)" c_x] by simp
  have wl: "wf_tensor ?l"
    using lx lo by (simp add: wf_tensor_def)
  have fin: "bind_err (tensor_binop (*) (scalar c_z) (if 1 < i then randn (n # sz) (zs i) else scalar 0))
               (tensor_binop (+) ?l) = Inr ?res"
  proof (cases "1 < i")
    case True
    let ?r = "\<lparr> shape = n # sz, data = map ((*) c_z) (zs i) \<rparr>"
    have wz: "wf_tensor (randn (n # sz) (zs i))"
      using z [OF True] by (simp add: wf_tensor_def randn_def)
    have "tensor_binop (*) (scalar c_z) (randn (n # sz) (zs i)) = Inr ?r"
      using tensor_binop_scalar_left [OF wz, of "(*)" c_z] by (simp add: randn_def)
    moreover have "tensor_binop (+) ?l ?r
        = Inr \<lparr> shape = n # sz, data = map2 (+) (data ?l) (data ?r) \<rparr>"
      using tensor_binop_same [of ?l ?r "(+)"] wl z [OF True] by (simp add: wf_tensor_def)
    moreover have "map2 (+) (data ?l) (data ?r) = data ?res"
      using True lx lo z [OF True] by (intro nth_equalityI) simp_all
    ultimately show ?thesis
      using True by simp
  next
    case False
    have "tensor_binop (*) (scalar c_z) (scalar 0) = Inr (scalar (c_z * 0))"
      by (simp add: tensor_binop_def scalar_def)
    moreover have "tensor_binop (+) ?l (scalar (c_z * 0))
        = Inr \<lparr> shape = n # sz, data = map (\<lambda>a. a + c_z * 0) (data ?l) \<rparr>"
      using tensor_binop_scalar_right [OF wl, of "(+)" "c_z * 0"] by simp
    moreover have "map (\<lambda>a. a + c_z * 0) (data ?l) = data ?res"
      using False lx lo by (intro nth_equalityI) simp_all
    ultimately show ?thesis
      using False by simp
  qed
  show ?thesis
    unfolding sample_step_def Let_def
    by (simp only: r1 r2 r3 net s1 s2 idx b1 b2 b3 fin bind_err_simps)
qed

section \<open>Facts about the residual block and the sampling loop\<close>

lemma sample_step_drop_prob:
  "sample_step (self\<lparr>drop_prob := p\<rparr>) n sz zs i x = sample_step self n sz zs i x"
  by (simp add: sample_step_def)

lemma sample_loop_drop_prob:
  "sample_loop (self\<lparr>drop_prob := p\<rparr>) n sz zs steps x store = sample_loop self n sz zs steps x store"
  by (induction steps arbitrary: x store) (simp_all add: sample_step_drop_prob split: sum.splits)

lemma stored_iff: "1 \<le> i \<Longrightarrow> stored T i = (20 dvd i \<or> i = T \<or> i \<le> 7)"
  by (auto simp: stored_def dvd_eq_mod_eq_0)

lemma sample_loop_store:
  assumes "sample_loop self n sz zs steps x store = Inr (xf, store')"
  shows "map fst (sample_states self n sz zs steps x) = steps
    \<and> store' = store @ map snd (filter (\<lambda>p. stored (n_T self) (fst p)) (sample_states self n sz zs steps x))
    \<and> xf = last (x # map snd (sample_states self n sz zs steps x))"
  using assms
proof (induction steps arbitrary: x store)
  case Nil
  then show ?case by simp
next
  case (Cons i rest)
  then obtain x' where s: "sample_step self n sz zs i x = Inr x'"
    by (auto split: sum.splits)
  with Cons.prems have
    "sample_loop self n sz zs rest x' (if stored (n_T self) i then store @ [x'] else store) = Inr (xf, store')"
    by simp
  from Cons.IH [OF this] show ?case
    using s by auto
qed

lemma tensor_binop_div_scalar:
  "wf_tensor x \<Longrightarrow> tensor_binop (/) x (scalar c) = Inr \<lparr> shape = shape x, data = map (\<lambda>a. a / c) (data x) \<rparr>"
  by (rule tensor_binop_scalar_right)

lemma residual_forward_value:
  assumes "is_res self" "same_channels self"
    and "conv1 self x = Inr x1" "conv2 self x1 = Inr x2"
    and "shape x2 = shape x" "wf_tensor x" "wf_tensor x2"
  shows "ResidualConvBlock_forward self x
     = Inr \<lparr> shape = shape x, data = map2 (\<lambda>a b. (a + b) / (1414 / 1000)) (data x) (data x2) \<rparr>"
proof -
  let ?out = "\<lparr> shape = shape x, data = map2 (+) (data x) (data x2) \<rparr>"
  have a: "tensor_binop (+) x x2 = Inr ?out"
    using assms by (intro tensor_binop_same) simp_all
  have w: "wf_tensor ?out"
    using assms by (simp add: wf_tensor_def)
  have "map (\<lambda>a. a / (1414 / 1000)) (map2 (+) (data x) (data x2))
      = map2 (\<lambda>a b. (a + b) / (1414 / 1000)) (data x) (data x2)"
    by (simp add: map_zip_map2 comp_def case_prod_unfold)
  then show ?thesis
    using assms(1-4) a tensor_binop_scalar_right [OF w, of "(/)" "1414 / 1000"]
    by (simp add: ResidualConvBlock_forward_def)
qed

lemma index1_in_range: "0 \<le> i \<Longrightarrow> i < int (length buf) \<Longrightarrow> index1 buf i = Inr (buf ! nat i)"
  by (simp add: index1_def)

lemma DDPM_init_fields:
  assumes "DDPM_init net betas T dev p = Inr self"
  shows "ddpm_schedules (fst betas) (snd betas) T = Inr (buffers self)"
    and "nn_model self = net" and "n_T self = T" and "device self = dev" and "drop_prob self = p"
  using assms
  by (cases "ddpm_schedules (fst betas) (snd betas) T"; auto simp: DDPM_init_def)+

lemma DDPM_init_index:
  assumes "DDPM_init net betas T dev p = Inr self" "1 \<le> i" "i \<le> T"
  shows "index1 (oneover_sqrta (buffers self)) i = Inr (oneover_sqrta (buffers self) ! nat i)"
    and "index1 (mab_over_sqrtmab (buffers self)) i = Inr (mab_over_sqrtmab (buffers self) ! nat i)"
    and "index1 (sqrt_beta_t (buffers self)) i = Inr (sqrt_beta_t (buffers self) ! nat i)"
    and "index1 (sqrtab (buffers self)) i = Inr (sqrtab (buffers self) ! nat i)"
    and "index1 (sqrtmab (buffers self)) i = Inr (sqrtmab (buffers self) ! nat i)"
  using assms(2,3) ddpm_schedules_lengths [OF DDPM_init_fields(1) [OF assms(1)]]
  by (simp_all add: index1_in_range)

lemma sample_step_ok:
  assumes init: "DDPM_init net betas T dev p = Inr self"
    and sz: "length sz = 3"
    and net: "net_contract net ((2 * n) # sz) [2 * n, 1, 1, 1]"
    and i: "1 \<le> i" "i \<le> T"
    and z: "1 < i \<Longrightarrow> length (zs i) = n * prod_list sz"
    and x: "shape x = n # sz" "wf_tensor x"
  shows "\<exists>x'. sample_step self n sz zs i x = Inr x' \<and> shape x' = n # sz \<and> wf_tensor x'"
proof -
  let ?x_d = "\<lparr> shape = (2 * n) # sz, data = data x @ data x \<rparr>"
  let ?t_d = "\<lparr> shape = [2 * n, 1, 1, 1],
                data = replicate n (real_of_int i / real_of_int (n_T self))
                     @ replicate n (real_of_int i / real_of_int (n_T self)) \<rparr>"
  have "wf_tensor ?x_d" "wf_tensor ?t_d"
    using x by (simp_all add: wf_tensor_def)
  then obtain out where out: "net ?x_d ?t_d = Inr out" "shape out = (2 * n) # sz" "wf_tensor out"
    using net unfolding net_contract_def by force
  have m: "nn_model self ?x_d ?t_d = Inr out"
    using out(1) DDPM_init_fields(2) [OF init] by simp
  have "sample_step self n sz zs i x
     = Inr \<lparr> shape = n # sz,
             data = map (\<lambda>k. oneover_sqrta (buffers self) ! nat i
                                * (data x ! k - data out ! k * mab_over_sqrtmab (buffers self) ! nat i)
                              + sqrt_beta_t (buffers self) ! nat i * (if 1 < i then zs i ! k else 0))
                        [0..<n * prod_list sz] \<rparr>"
    using x(1) sz x(2) m out(2,3) DDPM_init_index(1-3) [OF init i] z
    by (rule sample_step_value)
  then show ?thesis
    by (simp add: wf_tensor_def)
qed

lemma sample_loop_ok:
  assumes init: "DDPM_init net betas T dev p = Inr self"
    and sz: "length sz = 3"
    and net: "net_contract net ((2 * n) # sz) [2 * n, 1, 1, 1]"
    and z: "\<And>i. 1 < i \<Longrightarrow> i \<le> T \<Longrightarrow> length (zs i) = n * prod_list sz"
  shows "\<forall>i\<in>set steps. 1 \<le> i \<and> i \<le> T \<Longrightarrow> shape x = n # sz \<Longrightarrow> wf_tensor x
    \<Longrightarrow> \<forall>t\<in>set store. shape t = n # sz
    \<Longrightarrow> \<exists>xf store'. sample_loop self n sz zs steps x store = Inr (xf, store')
          \<and> shape xf = n # sz \<and> wf_tensor xf \<and> (\<forall>t\<in>set store'. shape t = n # sz)"
proof (induction steps arbitrary: x store)
  case Nil
  then show ?case by simp
next
  case (Cons i rest)
  have i: "1 \<le> i" "i \<le> T"
    using Cons.prems(1) by simp_all
  have "1 < i \<Longrightarrow> length (zs i) = n * prod_list sz"
    using z i by simp
  with init sz net i
  have "\<exists>x'. sample_step self n sz zs i x = Inr x' \<and> shape x' = n # sz \<and> wf_tensor x'"
    using Cons.prems(2,3) by (rule sample_step_ok)
  then obtain x' where x': "sample_step self n sz zs i x = Inr x'" "shape x' = n # sz" "wf_tensor x'"
    by blast
  let ?store = "if stored (n_T self) i then store @ [x'] else store"
  have "\<forall>t\<in>set ?store. shape t = n # sz"
    using Cons.prems(4) x'(2) by simp
  moreover have "\<forall>i\<in>set rest. 1 \<le> i \<and> i \<le> T"
    using Cons.prems(1) by simp
  ultimately obtain xf store' where
    "sample_loop self n sz zs rest x' ?store = Inr (xf, store')"
    "shape xf = n # sz" "wf_tensor xf" "\<forall>t\<in>set store'. shape t = n # sz"
    using Cons.IH [OF _ x'(2,3)] by blast
  then show ?case
    using x'(1) by simp
qed

lemma set_sample_steps: "set (sample_steps T) = {1..T}"
  by (simp add: sample_steps_def)


section \<open>Claims about the sampling loop\<close>

lemma identity_net_contract: "net_contract identity_net xs tsh"
  by (simp add: net_contract_def identity_net_def)

lemma DDPM_init_ok:
  "fst betas < snd betas \<Longrightarrow> snd betas < 1 \<Longrightarrow> \<exists>self. DDPM_init net betas T dev p = Inr self"
  using ddpm_schedules_accepts [of "fst betas" "snd betas" T]
  by (auto simp: DDPM_init_def)

lemma DDPM_sample_ok:
  assumes "DDPM_init net betas T dev p = Inr self"
    and "length size' = 3"
    and "net_contract net ((2 * n_sample) # size') [2 * n_sample, 1, 1, 1]"
    and "length x0 = n_sample * prod_list size'"
    and "\<forall>i. 1 < i \<and> i \<le> T \<longrightarrow> length (zs i) = n_sample * prod_list size'"
  shows "\<exists>x store. DDPM_sample self n_sample size' x0 zs = Inr (x, store)
     \<and> shape x = n_sample # size' \<and> wf_tensor x \<and> (\<forall>t\<in>set store. shape t = n_sample # size')"
proof -
  have "\<exists>xf store'. sample_loop self n_sample size' zs (sample_steps T)
           (randn (n_sample # size') x0) [] = Inr (xf, store')
          \<and> shape xf = n_sample # size' \<and> wf_tensor xf
          \<and> (\<forall>t\<in>set store'. shape t = n_sample # size')"
    using assms(4,5)
    by (intro sample_loop_ok [OF assms(1-3)])
       (simp_all add: set_sample_steps randn_def wf_tensor_def)
  then show ?thesis
    using DDPM_init_fields(3) [OF assms(1)] by (auto simp: DDPM_sample_def)
qed

lemma demo_sample_ok:
  "\<exists>self x store. DDPM_init identity_net (1 / 4, 1 / 2) 2 ''cpu'' (1 / 10) = Inr self
     \<and> DDPM_sample self 1 [1, 1, 1] [0] (\<lambda>i. [0]) = Inr (x, store)"
proof -
  obtain self where i: "DDPM_init identity_net (1 / 4, 1 / 2) 2 ''cpu'' (1 / 10) = Inr self"
    using DDPM_init_ok [of "(1 / 4, 1 / 2)" identity_net 2 "''cpu''" "1 / 10"] by auto
  have "\<exists>x store. DDPM_sample self 1 [1, 1, 1] [0] (\<lambda>i. [0]) = Inr (x, store)
     \<and> shape x = 1 # [1, 1, 1] \<and> wf_tensor x \<and> (\<forall>t\<in>set store. shape t = 1 # [1, 1, 1])"
    by (rule DDPM_sample_ok [OF i]) (simp_all add: identity_net_contract)
  with i show ?thesis by blast
qed

text \<open>
  Claim C6, as amended: when \<^verbatim>\<open>DDPM.sample\<close> returns, the loop has gone through the
  timesteps \<open>T, T - 1, ..., 1\<close>; the returned list holds, in that order, the state after
  every timestep \<open>i\<close> that is divisible by \<open>20\<close>, or is the first one (\<open>i = T\<close>), or is one
  of the final \<open>7\<close> (\<open>i \<le> 7\<close>, line 249 tests \<open>i < 8\<close>); and the returned batch is the last
  state.
\<close>

theorem sample_snapshots:
  assumes "DDPM_sample self n_sample size' x0 zs = Inr (x, store)"
  shows "map fst (sample_states self n_sample size' zs (sample_steps (n_T self))
                    (randn (n_sample # size') x0)) = rev [1..n_T self]
    \<and> store = map snd (filter (\<lambda>p. 20 dvd fst p \<or> fst p = n_T self \<or> fst p \<le> 7)
                (sample_states self n_sample size' zs (sample_steps (n_T self))
                    (randn (n_sample # size') x0)))
    \<and> x = last (randn (n_sample # size') x0
                # map snd (sample_states self n_sample size' zs (sample_steps (n_T self))
                    (randn (n_sample # size') x0)))"
proof -
  let ?st = "sample_states self n_sample size' zs (sample_steps (n_T self))
                    (randn (n_sample # size') x0)"
  have l: "sample_loop self n_sample size' zs (sample_steps (n_T self))
             (randn (n_sample # size') x0) [] = Inr (x, store)"
    using assms by (simp add: DDPM_sample_def)
  note f = sample_loop_store [OF l]
  have steps: "map fst ?st = rev [1..n_T self]"
    using f by (simp add: sample_steps_def)
  have "filter (\<lambda>p. stored (n_T self) (fst p)) ?st
      = filter (\<lambda>p. 20 dvd fst p \<or> fst p = n_T self \<or> fst p \<le> 7) ?st"
  proof (rule filter_cong [OF refl])
    fix p assume "p \<in> set ?st"
    then have "fst p \<in> set (map fst ?st)"
      by simp
    then have "1 \<le> fst p"
      unfolding steps by simp
    then show "stored (n_T self) (fst p) = (20 dvd fst p \<or> fst p = n_T self \<or> fst p \<le> 7)"
      by (rule stored_iff)
  qed
  then show ?thesis
    using f steps by simp
qed

text \<open>
  The theorem at a run with \<open>T = 2\<close>, one sample of size \<open>(1, 1, 1)\<close> and the network
  \<open>identity_net\<close>.
\<close>

theorem sample_snapshots_witness:
  "\<exists>self x store. DDPM_init identity_net (1 / 4, 1 / 2) 2 ''cpu'' (1 / 10) = Inr self
     \<and> DDPM_sample self 1 [1, 1, 1] [0] (\<lambda>i. [0]) = Inr (x, store)
     \<and> map fst (sample_states self 1 [1, 1, 1] (\<lambda>i. [0]) (sample_steps (n_T self))
                    (randn [1, 1, 1, 1] [0])) = rev [1..n_T self]
     \<and> store = map snd (filter (\<lambda>p. 20 dvd fst p \<or> fst p = n_T self \<or> fst p \<le> 7)
                (sample_states self 1 [1, 1, 1] (\<lambda>i. [0]) (sample_steps (n_T self))
                    (randn [1, 1, 1, 1] [0])))"
proof -
  obtain self x store where
    i: "DDPM_init identity_net (1 / 4, 1 / 2) 2 ''cpu'' (1 / 10) = Inr self"
    and s: "DDPM_sample self 1 [1, 1, 1] [0] (\<lambda>i. [0]) = Inr (x, store)"
    using demo_sample_ok by blast
  show ?thesis
    using i s sample_snapshots [OF s] by blast
qed

text \<open>
  Claim C6 as stated fails: with \<open>T = 600\<close> the timestep \<open>8\<close> is among the final eight
  steps and is not stored; with \<open>T = 10\<close> the stored timesteps are \<open>10, 7, 6, ..., 1\<close>, eight
  of them, where the claim has nine.
\<close>

theorem final_eight_counterexample:
  "spec_stored 600 8 \<and> \<not> stored 600 8
   \<and> filter (stored 10) (sample_steps 10) = [10, 7, 6, 5, 4, 3, 2, 1]
   \<and> filter (spec_stored 10) (sample_steps 10) = [10, 8, 7, 6, 5, 4, 3, 2, 1]"
proof -
  have "take 8 [1..600] = [1, 2, 3, 4, 5, 6, 7, 8 :: int]"
    by (simp add: upto_rec1 [of _ 600])
  then have a: "spec_stored 600 8"
    by (simp add: spec_stored_def)
  have b: "\<not> stored 600 8"
    by (simp add: stored_def)
  have s: "sample_steps 10 = [10, 9, 8, 7, 6, 5, 4, 3, 2, 1]"
    by (simp add: sample_steps_def upto_rec1)
  have c: "filter (stored 10) (sample_steps 10) = [10, 7, 6, 5, 4, 3, 2, 1]"
    unfolding s by (simp add: stored_def)
  have "take 8 [1..10] = [1, 2, 3, 4, 5, 6, 7, 8 :: int]"
    by (simp add: upto_rec1)
  then have d: "filter (spec_stored 10) (sample_steps 10) = [10, 8, 7, 6, 5, 4, 3, 2, 1]"
    unfolding s by (simp add: spec_stored_def)
  show ?thesis
    using a b c d by simp
qed

lemma tensor_repeat_shape:
  "length (shape x) \<le> length reps
   \<Longrightarrow> \<exists>d. tensor_repeat x reps
         = Inr \<lparr> shape = map2 (*) reps (pad_shape (length reps) (shape x)), data = d \<rparr>"
  by (simp add: tensor_repeat_def Let_def)

lemma tensor_binop_shape:
  "broadcast_shapes (shape x) (shape y) = Some s
   \<Longrightarrow> \<exists>d. tensor_binop f x y = Inr \<lparr> shape = s, data = d \<rparr>"
  by (simp add: tensor_binop_def)

lemma sample_step_rank2:
  assumes init: "DDPM_init identity_net betas T dev p = Inr self"
    and T: "1 \<le> T"
    and x: "shape x = [3, 2, 2]"
  shows "\<exists>x'. sample_step self 3 [2, 2] zs 1 x = Inr x' \<and> shape x' = [2, 3, 2, 2]"
proof -
  let ?v = "real_of_int 1 / real_of_int (n_T self)"
  have r1: "tensor_repeat \<lparr> shape = [1], data = [?v] \<rparr> [3, 1, 1, 1]
      = Inr \<lparr> shape = [3, 1, 1, 1], data = replicate 3 ?v \<rparr>"
    by (rule tensor_repeat_t_is)
  obtain d2 where r2: "tensor_repeat x [2, 1, 1, 1] = Inr \<lparr> shape = [2, 3, 2, 2], data = d2 \<rparr>"
    using tensor_repeat_shape [of x "[2, 1, 1, 1]"] x by (auto simp: pad_shape_def)
  obtain d3 where r3: "tensor_repeat \<lparr> shape = [3, 1, 1, 1], data = replicate 3 ?v \<rparr> [2, 1, 1, 1]
      = Inr \<lparr> shape = [6, 1, 1, 1], data = d3 \<rparr>"
    using tensor_repeat_shape [of "\<lparr> shape = [3, 1, 1, 1], data = replicate 3 ?v \<rparr>" "[2, 1, 1, 1]"]
    by (auto simp: pad_shape_def)
  let ?x_d = "\<lparr> shape = [2, 3, 2, 2], data = d2 \<rparr>"
  have net: "nn_model self ?x_d \<lparr> shape = [6, 1, 1, 1], data = d3 \<rparr> = Inr ?x_d"
    by (simp add: DDPM_init_fields(2) [OF init] identity_net_def)
  let ?h = "\<lparr> shape = [2, 3, 2, 2], data = take (2 * (3 * (2 * 2))) d2 \<rparr>"
  have s1: "slice_to ?x_d 3 = Inr ?h"
    by (simp add: slice_to_def)
  note idx = DDPM_init_index(1-3) [OF init order_refl T]
  obtain e where b1: "tensor_binop (*) ?h (scalar (mab_over_sqrtmab (buffers self) ! nat 1))
      = Inr \<lparr> shape = [2, 3, 2, 2], data = e \<rparr>"
    using tensor_binop_shape [of ?h "scalar (mab_over_sqrtmab (buffers self) ! nat 1)"]
    by (auto simp: scalar_def)
  obtain d where b2: "tensor_binop (-) ?h \<lparr> shape = [2, 3, 2, 2], data = e \<rparr>
      = Inr \<lparr> shape = [2, 3, 2, 2], data = d \<rparr>"
    using tensor_binop_shape [of ?h "\<lparr> shape = [2, 3, 2, 2], data = e \<rparr>"] by auto
  obtain l where b3: "tensor_binop (*) (scalar (oneover_sqrta (buffers self) ! nat 1))
        \<lparr> shape = [2, 3, 2, 2], data = d \<rparr> = Inr \<lparr> shape = [2, 3, 2, 2], data = l \<rparr>"
    using tensor_binop_shape [of "scalar (oneover_sqrta (buffers self) ! nat 1)"
        "\<lparr> shape = [2, 3, 2, 2], data = d \<rparr>"]
    by (auto simp: scalar_def)
  obtain r where b4: "tensor_binop (*) (scalar (sqrt_beta_t (buffers self) ! nat 1)) (scalar 0)
      = Inr \<lparr> shape = [], data = r \<rparr>"
    using tensor_binop_shape [of "scalar (sqrt_beta_t (buffers self) ! nat 1)" "scalar 0"]
    by (auto simp: scalar_def)
  obtain y where b5: "tensor_binop (+) \<lparr> shape = [2, 3, 2, 2], data = l \<rparr> \<lparr> shape = [], data = r \<rparr>
      = Inr \<lparr> shape = [2, 3, 2, 2], data = y \<rparr>"
    using tensor_binop_shape [of "\<lparr> shape = [2, 3, 2, 2], data = l \<rparr>" "\<lparr> shape = [], data = r \<rparr>"]
    by auto
  have "sample_step self 3 [2, 2] zs 1 x = Inr \<lparr> shape = [2, 3, 2, 2], data = y \<rparr>"
    unfolding sample_step_def Let_def
    by (simp only: r1 r2 r3 net s1 idx b1 b2 b3 b4 b5 bind_err_simps if_False less_irrefl)
  then show ?thesis by simp
qed

text \<open>
  Claim C10, as amended: for a wrapper built by \<^verbatim>\<open>DDPM.__init__\<close>, a \<open>size\<close> of
  three dimensions (channels, height, width) and a network that meets its contract on
  the doubled batch, \<^verbatim>\<open>DDPM.sample\<close> returns, the final batch has shape
  \<open>(n_sample,) + size\<close>, and so has every stored snapshot.
\<close>

theorem sample_shapes:
  assumes "DDPM_init net betas T dev p = Inr self"
    and "length size' = 3"
    and "net_contract net ((2 * n_sample) # size') [2 * n_sample, 1, 1, 1]"
    and "length x0 = n_sample * prod_list size'"
    and "\<forall>i. 1 < i \<and> i \<le> T \<longrightarrow> length (zs i) = n_sample * prod_list size'"
  shows "\<exists>x store. DDPM_sample self n_sample size' x0 zs = Inr (x, store)
     \<and> shape x = n_sample # size' \<and> (\<forall>t\<in>set store. shape t = n_sample # size')"
  using DDPM_sample_ok [OF assms] by blast

text \<open>
  The theorem at \<open>T = 2\<close>, two samples of size \<open>(1, 2, 2)\<close> and the network
  \<open>identity_net\<close>.
\<close>

theorem sample_shapes_witness:
  "\<exists>self. DDPM_init identity_net (1 / 4, 1 / 2) 2 ''cpu'' (1 / 10) = Inr self
     \<and> length [1, 2, 2 :: nat] = 3
     \<and> net_contract identity_net ((2 * 2) # [1, 2, 2]) [2 * 2, 1, 1, 1]
     \<and> length (replicate 8 (0 :: real)) = 2 * prod_list [1, 2, 2]
     \<and> (\<forall>i :: int. 1 < i \<and> i \<le> 2 \<longrightarrow> length (replicate 8 (0 :: real)) = 2 * prod_list [1, 2, 2])
     \<and> (\<exists>x store. DDPM_sample self 2 [1, 2, 2] (replicate 8 0) (\<lambda>i. replicate 8 0) = Inr (x, store)
          \<and> shape x = [2, 1, 2, 2] \<and> (\<forall>t\<in>set store. shape t = [2, 1, 2, 2]))"
proof -
  obtain self where i: "DDPM_init identity_net (1 / 4, 1 / 2) 2 ''cpu'' (1 / 10) = Inr self"
    using DDPM_init_ok [of "(1 / 4, 1 / 2)" identity_net 2 "''cpu''" "1 / 10"] by auto
  have h: "length [1, 2, 2 :: nat] = 3"
    "net_contract identity_net ((2 * 2) # [1, 2, 2]) [2 * 2, 1, 1, 1]"
    "length (replicate 8 (0 :: real)) = 2 * prod_list [1, 2, 2]"
    "\<forall>i :: int. 1 < i \<and> i \<le> 2 \<longrightarrow> length (replicate 8 (0 :: real)) = 2 * prod_list [1, 2, 2]"
    by (simp_all add: identity_net_contract)
  have "\<exists>x store. DDPM_sample self 2 [1, 2, 2] (replicate 8 0) (\<lambda>i. replicate 8 0) = Inr (x, store)
     \<and> shape x = 2 # [1, 2, 2] \<and> (\<forall>t\<in>set store. shape t = 2 # [1, 2, 2])"
    using i h by (rule sample_shapes)
  then show ?thesis
    using i h by auto
qed

text \<open>
  Claim C10 as stated fails for a \<open>size\<close> of two dimensions: with
  \<open>n_sample = 3\<close>, \<open>size = (2, 2)\<close> and \<open>T = 1\<close>, \<^verbatim>\<open>x_i.repeat(2, 1, 1, 1)\<close> turns the
  batch of shape \<open>(3, 2, 2)\<close> into one of shape \<open>(2, 3, 2, 2)\<close>, of which \<open>[:3]\<close> keeps both
  rows: the returned batch and the snapshot have shape \<open>(2, 3, 2, 2)\<close>, not \<open>(3, 2, 2)\<close>.
\<close>

theorem sample_rank2_counterexample:
  "\<not> isl (DDPM_init identity_net (1 / 4, 1 / 2) 1 ''cpu'' (1 / 10))
   \<and> net_contract identity_net [2 * 3, 2, 2] [2 * 3, 1, 1, 1]
   \<and> \<not> isl (DDPM_sample (projr (DDPM_init identity_net (1 / 4, 1 / 2) 1 ''cpu'' (1 / 10)))
              3 [2, 2] (replicate 12 0) (\<lambda>i. replicate 12 0))
   \<and> shape (fst (projr (DDPM_sample (projr (DDPM_init identity_net (1 / 4, 1 / 2) 1 ''cpu'' (1 / 10)))
              3 [2, 2] (replicate 12 0) (\<lambda>i. replicate 12 0)))) = [2, 3, 2, 2]
   \<and> map shape (snd (projr (DDPM_sample (projr (DDPM_init identity_net (1 / 4, 1 / 2) 1 ''cpu'' (1 / 10)))
              3 [2, 2] (replicate 12 0) (\<lambda>i. replicate 12 0)))) = [[2, 3, 2, 2]]"
proof -
  obtain self where i: "DDPM_init identity_net (1 / 4, 1 / 2) 1 ''cpu'' (1 / 10) = Inr self"
    using DDPM_init_ok [of "(1 / 4, 1 / 2)" identity_net 1 "''cpu''" "1 / 10"] by auto
  obtain x' where s: "sample_step self 3 [2, 2] (\<lambda>i. replicate 12 0) 1 (randn [3, 2, 2] (replicate 12 0)) = Inr x'"
    and sh: "shape x' = [2, 3, 2, 2]"
    using sample_step_rank2 [OF i, of "randn [3, 2, 2] (replicate 12 0)" "\<lambda>i. replicate 12 0"]
    by (auto simp: randn_def)
  have "sample_steps 1 = [1]"
    by (simp add: sample_steps_def upto_rec1)
  then have "DDPM_sample self 3 [2, 2] (replicate 12 0) (\<lambda>i. replicate 12 0) = Inr (x', [x'])"
    using s DDPM_init_fields(3) [OF i] by (simp add: DDPM_sample_def stored_def)
  then show ?thesis
    using i sh by (simp add: identity_net_contract)
qed

text \<open>
  Claim C9: \<open>drop_prob\<close> is stored by \<^verbatim>\<open>DDPM.__init__\<close> and read by neither
  \<^verbatim>\<open>DDPM.forward\<close> nor \<^verbatim>\<open>DDPM.sample\<close>: two wrappers that differ only in
  \<open>drop_prob\<close> return the same loss and the same final batch and snapshots, for the
  same inputs and draws; and the wrappers \<^verbatim>\<open>__init__\<close> builds from two values of
  \<open>drop_prob\<close> differ in that field only.
\<close>

theorem drop_prob_noninterference:
  "DDPM_forward (self\<lparr>drop_prob := p\<rparr>) x ts noise = DDPM_forward (self\<lparr>drop_prob := q\<rparr>) x ts noise
   \<and> DDPM_sample (self\<lparr>drop_prob := p\<rparr>) n_sample size' x0 zs
       = DDPM_sample (self\<lparr>drop_prob := q\<rparr>) n_sample size' x0 zs
   \<and> map_sum id drop_prob (DDPM_init net betas T dev p)
       = map_sum id (\<lambda>d. p) (DDPM_init net betas T dev p)
   \<and> map_sum id (\<lambda>d. d\<lparr>drop_prob := q\<rparr>) (DDPM_init net betas T dev p)
       = DDPM_init net betas T dev q"
proof -
  have "DDPM_forward (self\<lparr>drop_prob := r\<rparr>) x ts noise = DDPM_forward self x ts noise" for r
    by (simp add: DDPM_forward_def)
  moreover have "DDPM_sample (self\<lparr>drop_prob := r\<rparr>) n_sample size' x0 zs
      = DDPM_sample self n_sample size' x0 zs" for r
    by (simp add: DDPM_sample_def sample_loop_drop_prob)
  moreover have "map_sum id drop_prob (DDPM_init net betas T dev p)
       = map_sum id (\<lambda>d. p) (DDPM_init net betas T dev p)"
    by (cases "ddpm_schedules (fst betas) (snd betas) T") (simp_all add: DDPM_init_def)
  moreover have "map_sum id (\<lambda>d. d\<lparr>drop_prob := q\<rparr>) (DDPM_init net betas T dev p)
       = DDPM_init net betas T dev q"
    by (cases "ddpm_schedules (fst betas) (snd betas) T") (simp_all add: DDPM_init_def)
  ultimately show ?thesis by simp
qed

section \<open>Claims about the residual block\<close>

text \<open>
  Claim C5, as amended: for a residual block with equal input and output channel
  counts and \<open>is_res\<close> enabled, whose second stack returns a tensor of the shape of the
  input, the output is \<open>(input + conv2(conv1(input))) / 1.414\<close>, entry by entry. The
  divisor is the literal \<open>1.414\<close> of line 55, not \<open>\<surd>2\<close>.
\<close>

theorem residual_forward:
  assumes "is_res self" "same_channels self"
    and "conv1 self x = Inr x1" "conv2 self x1 = Inr x2"
    and "shape x2 = shape x" "wf_tensor x" "wf_tensor x2"
  shows "ResidualConvBlock_forward self x
     = Inr \<lparr> shape = shape x, data = map2 (\<lambda>a b. (a + b) / (1414 / 1000)) (data x) (data x2) \<rparr>"
  using assms by (rule residual_forward_value)

lemma zero_block_fields:
  "is_res (ResidualConvBlock_init 1 1 True zero_stack zero_stack)"
  "same_channels (ResidualConvBlock_init 1 1 True zero_stack zero_stack)"
  "conv1 (ResidualConvBlock_init 1 1 True zero_stack zero_stack) = zero_stack"
  "conv2 (ResidualConvBlock_init 1 1 True zero_stack zero_stack) = zero_stack"
  by (simp_all add: ResidualConvBlock_init_def)

text \<open>
  The theorem at the block with zero stacks and the input \<open>[1, 3]\<close> of shape
  \<open>(1, 1, 1, 2)\<close>.
\<close>

theorem residual_forward_witness:
  "is_res (ResidualConvBlock_init 1 1 True zero_stack zero_stack)
   \<and> same_channels (ResidualConvBlock_init 1 1 True zero_stack zero_stack)
   \<and> conv1 (ResidualConvBlock_init 1 1 True zero_stack zero_stack)
        \<lparr> shape = [1, 1, 1, 2], data = [1, 3] \<rparr> = Inr \<lparr> shape = [1, 1, 1, 2], data = [0, 0] \<rparr>
   \<and> conv2 (ResidualConvBlock_init 1 1 True zero_stack zero_stack)
        \<lparr> shape = [1, 1, 1, 2], data = [0, 0] \<rparr> = Inr \<lparr> shape = [1, 1, 1, 2], data = [0, 0] \<rparr>
   \<and> wf_tensor \<lparr> shape = [1, 1, 1, 2], data = [1, 3] \<rparr>
   \<and> wf_tensor \<lparr> shape = [1, 1, 1, 2], data = [0, 0] \<rparr>
   \<and> ResidualConvBlock_forward (ResidualConvBlock_init 1 1 True zero_stack zero_stack)
        \<lparr> shape = [1, 1, 1, 2], data = [1, 3] \<rparr>
       = Inr \<lparr> shape = [1, 1, 1, 2], data = [1000 / 1414, 3000 / 1414] \<rparr>"
proof -
  let ?b = "ResidualConvBlock_init 1 1 True zero_stack zero_stack"
  let ?x = "\<lparr> shape = [1, 1, 1, 2], data = [1, 3] \<rparr>"
  let ?z = "\<lparr> shape = [1, 1, 1, 2], data = [0, 0] \<rparr>"
  have c1: "conv1 ?b ?x = Inr ?z" and c2: "conv2 ?b ?z = Inr ?z"
    by (simp_all add: ResidualConvBlock_init_def zero_stack_def)
  have w: "wf_tensor ?x" "wf_tensor ?z"
    by (simp_all add: wf_tensor_def)
  have s: "shape ?z = shape ?x"
    by simp
  have "ResidualConvBlock_forward ?b ?x
     = Inr \<lparr> shape = shape ?x, data = map2 (\<lambda>a b. (a + b) / (1414 / 1000)) (data ?x) (data ?z) \<rparr>"
    using zero_block_fields(1,2) c1 c2 s w by (rule residual_forward)
  then show ?thesis
    using c1 c2 w zero_block_fields(1,2) by simp
qed

lemma sqrt2_not_1414: "sqrt 2 \<noteq> 1414 / 1000"
proof
  assume a: "sqrt 2 = 1414 / 1000"
  have "(sqrt 2)\<^sup>2 = 2"
    by simp
  then have "(1414 / 1000 :: real)\<^sup>2 = 2"
    unfolding a .
  then show False
    by (simp add: power2_eq_square)
qed

text \<open>
  Claim C5 as stated fails: for the block with zero stacks and the input \<open>[1]\<close> of
  shape \<open>(1, 1, 1, 1)\<close> the output is \<open>1 / 1.414\<close>, and \<open>(input + conv2(conv1(input))) / \<surd>2\<close>
  is \<open>1 / \<surd>2\<close>.
\<close>

theorem residual_sqrt2_counterexample:
  "ResidualConvBlock_forward (ResidualConvBlock_init 1 1 True zero_stack zero_stack)
        \<lparr> shape = [1, 1, 1, 1], data = [1] \<rparr>
       = Inr \<lparr> shape = [1, 1, 1, 1], data = [1000 / 1414] \<rparr>
   \<and> spec_residual \<lparr> shape = [1, 1, 1, 1], data = [1] \<rparr> \<lparr> shape = [1, 1, 1, 1], data = [0] \<rparr>
       = \<lparr> shape = [1, 1, 1, 1], data = [1 / sqrt 2] \<rparr>
   \<and> ResidualConvBlock_forward (ResidualConvBlock_init 1 1 True zero_stack zero_stack)
        \<lparr> shape = [1, 1, 1, 1], data = [1] \<rparr>
       \<noteq> Inr (spec_residual \<lparr> shape = [1, 1, 1, 1], data = [1] \<rparr>
                 \<lparr> shape = [1, 1, 1, 1], data = [0] \<rparr>)"
proof -
  let ?b = "ResidualConvBlock_init 1 1 True zero_stack zero_stack"
  let ?x = "\<lparr> shape = [1, 1, 1, 1], data = [1] \<rparr>"
  let ?z = "\<lparr> shape = [1, 1, 1, 1], data = [0] \<rparr>"
  have c1: "conv1 ?b ?x = Inr ?z" and c2: "conv2 ?b ?z = Inr ?z"
    by (simp_all add: ResidualConvBlock_init_def zero_stack_def)
  have w: "wf_tensor ?x" "wf_tensor ?z"
    by (simp_all add: wf_tensor_def)
  have s: "shape ?z = shape ?x"
    by simp
  have "ResidualConvBlock_forward ?b ?x
     = Inr \<lparr> shape = shape ?x, data = map2 (\<lambda>a b. (a + b) / (1414 / 1000)) (data ?x) (data ?z) \<rparr>"
    using zero_block_fields(1,2) c1 c2 s w by (rule residual_forward_value)
  then have f: "ResidualConvBlock_forward ?b ?x = Inr \<lparr> shape = [1, 1, 1, 1], data = [1000 / 1414] \<rparr>"
    by simp
  have sp: "spec_residual ?x ?z = \<lparr> shape = [1, 1, 1, 1], data = [1 / sqrt 2] \<rparr>"
    by (simp add: spec_residual_def)
  have "(1000 / 1414 :: real) \<noteq> 1 / sqrt 2"
    using sqrt2_not_1414 by (simp add: field_simps)
  then show ?thesis
    unfolding f sp by simp
qed

end
